theory Spec2Isabelle
  imports Main "HOL-Library.Multiset"
begin

section \<open>The post pipeline of app/posts.ts\<close>

text \<open>
  The module reads the directory \<^verbatim>\<open>./public/\<close>, turns every subdirectory into a post
  record from the front matter of its \<^verbatim>\<open>index.md\<close>, sorts the records by date and builds
  a syndication feed from them. The embedding follows the source line by line.

  Three things the module calls are not part of its sources and are treated as follows.
  \<^item> \<^verbatim>\<open>matter\<close> (package gray-matter) and the string parser behind \<^verbatim>\<open>Date.parse\<close> are
    parameters of every function that uses them: \<open>matter\<close> maps a file's text to the
    front-matter object or throws, \<open>parse\<close> maps a string to a time value in milliseconds
    or to NaN.
  \<^item> \<^verbatim>\<open>Array.prototype.sort\<close> belongs to the JavaScript engine. ECMAScript leaves the
    resulting order to the implementation when the comparator is not consistent, and the
    comparator of \<^verbatim>\<open>getPosts\<close> is not (it never answers 0). The model is the sort of V8,
    the engine of Node: \<open>Array_sort\<close> below.
  \<^item> \<^verbatim>\<open>Feed\<close> (package feed) is a container: its constructor stores the options and
    \<^verbatim>\<open>addItem\<close> appends to its item list.
\<close>

subsection \<open>JavaScript values\<close>

text \<open>
  An object whose properties hold strings, as \<^verbatim>\<open>interface Post\<close> declares them; a property
  that is absent reads as \<^verbatim>\<open>undefined\<close>, here \<open>None\<close>.
\<close>

type_synonym obj = "string \<rightharpoonup> string"

text \<open>A number that is either NaN (\<open>None\<close>) or an integral count of milliseconds.\<close>

type_synonym number = "int option"

definition js_less :: "number \<Rightarrow> number \<Rightarrow> bool" where
  \<comment> \<open>the operator \<^verbatim>\<open><\<close> on numbers: false as soon as one side is NaN\<close>
  "js_less x y =
     (case x of None \<Rightarrow> False
      | Some a \<Rightarrow> (case y of None \<Rightarrow> False | Some b \<Rightarrow> a < b))"

definition js_greater_eq :: "number \<Rightarrow> number \<Rightarrow> bool" where
  \<comment> \<open>the operator \<^verbatim>\<open>>=\<close> on numbers: false as soon as one side is NaN\<close>
  "js_greater_eq x y =
     (case x of None \<Rightarrow> False
      | Some a \<Rightarrow> (case y of None \<Rightarrow> False | Some b \<Rightarrow> b \<le> a))"

definition ToString :: "string option \<Rightarrow> string" where
  \<comment> \<open>the conversion a template literal applies to a substitution\<close>
  "ToString v = (case v of None \<Rightarrow> ''undefined'' | Some s \<Rightarrow> s)"

definition Date_parse :: "(string \<Rightarrow> number) \<Rightarrow> string option \<Rightarrow> number" where
  \<comment> \<open>\<^verbatim>\<open>Date.parse(v)\<close>: the argument is converted to a string, then parsed\<close>
  "Date_parse parse v = parse (ToString v)"

definition new_Date :: "(string \<Rightarrow> number) \<Rightarrow> string option \<Rightarrow> number" where
  \<comment> \<open>\<^verbatim>\<open>new Date(v)\<close>, as its time value: a string is parsed, \<^verbatim>\<open>undefined\<close> gives an
      invalid date\<close>
  "new_Date parse v = (case v of None \<Rightarrow> None | Some s \<Rightarrow> parse s)"

subsection \<open>Errors and the file system\<close>

datatype error = ENOENT string | ParseError string

record dirent =
  name :: string
  isDirectory :: bool

record filesystem =
  directories :: "string \<rightharpoonup> dirent list"
  files :: "string \<rightharpoonup> string"

definition readdir :: "filesystem \<Rightarrow> string \<Rightarrow> error + dirent list" where
  "readdir fs path =
     (case directories fs path of None \<Rightarrow> Inl (ENOENT path) | Some entries \<Rightarrow> Inr entries)"

definition readFile :: "filesystem \<Rightarrow> string \<Rightarrow> error + string" where
  "readFile fs path =
     (case files fs path of None \<Rightarrow> Inl (ENOENT path) | Some content \<Rightarrow> Inr content)"

text \<open>
  \<^verbatim>\<open>Promise.all\<close> fulfils with every value, in the order of its argument, or rejects as soon
  as one promise rejects. The same shape describes \<^verbatim>\<open>Array.prototype.map\<close> with a callback
  that throws: the first exception leaves the loop.
\<close>

fun Promise_all :: "(error + 'a) list \<Rightarrow> error + 'a list" where
  "Promise_all [] = Inr []"
| "Promise_all (Inl e # rs) = Inl e"
| "Promise_all (Inr x # rs) =
     (case Promise_all rs of Inl e \<Rightarrow> Inl e | Inr xs \<Rightarrow> Inr (x # xs))"

subsection \<open>Sorting\<close>

text \<open>
  The sort of the engine. Node runs on V8, whose \<^verbatim>\<open>Array.prototype.sort\<close> is TimSort
  (\<^verbatim>\<open>third_party/v8/builtins/array-sort.tq\<close>): it cuts the array into runs, extends short
  runs by binary insertion and merges neighbouring runs, galloping through a run that
  keeps winning. The model follows that implementation function by function, with lists
  in place of the work array. Every comparison of the model is a call \<^verbatim>\<open>Compare(x, y)\<close> of
  the implementation, with the same arguments in the same order, and only the sign test
  \<^verbatim>\<open>order < 0\<close> is ever applied to its answer. The array holds post objects, so that the
  separate treatment of \<^verbatim>\<open>undefined\<close> elements and holes does not arise.
\<close>

text \<open>
  \<^verbatim>\<open>ComputeMinRunLength\<close>: \<^verbatim>\<open>while (n >= 64) { r = r | (n & 1); n = n >> 1; } return n + r;\<close>
  With \<open>r\<close> either 0 or 1, \<^verbatim>\<open>r | (n & 1)\<close> is the greater of the two. An array shorter than 64
  is one run.
\<close>

function ComputeMinRunLength_loop :: "nat \<Rightarrow> nat \<Rightarrow> nat" where
  "ComputeMinRunLength_loop n r =
     (if 64 \<le> n then ComputeMinRunLength_loop (n div 2) (max r (n mod 2)) else n + r)"
  by pat_completeness auto
termination
  by (relation "measure fst") auto

declare ComputeMinRunLength_loop.simps [simp del]

definition ComputeMinRunLength :: "nat \<Rightarrow> nat" where
  "ComputeMinRunLength n = ComputeMinRunLength_loop n 0"

text \<open>
  \<^verbatim>\<open>CountAndMakeRun(low, high)\<close>, on the elements from \<open>low\<close> on. The first comparison,
  \<^verbatim>\<open>Compare(a[low + 1], a[low])\<close>, makes the run descending when it is negative. The run then
  goes on as long as \<^verbatim>\<open>Compare(current, previous)\<close> stays negative (descending) or stays
  non-negative (otherwise), and a descending run is reversed. The model returns the run
  as it stands in the array afterwards; the run length of the source is its length.
\<close>

fun run_tail :: "('a \<Rightarrow> 'a \<Rightarrow> int) \<Rightarrow> bool \<Rightarrow> 'a \<Rightarrow> 'a list \<Rightarrow> nat" where
  "run_tail cmp isDescending previous [] = 0"
| "run_tail cmp isDescending previous (current # rest) =
     (if isDescending
      then (if cmp current previous \<ge> 0 then 0
            else Suc (run_tail cmp isDescending current rest))
      else (if cmp current previous < 0 then 0
            else Suc (run_tail cmp isDescending current rest)))"

fun CountAndMakeRun :: "('a \<Rightarrow> 'a \<Rightarrow> int) \<Rightarrow> 'a list \<Rightarrow> 'a list" where
  "CountAndMakeRun cmp [] = []"
| "CountAndMakeRun cmp [x] = [x]"
| "CountAndMakeRun cmp (x # y # rest) =
     (if cmp y x < 0
      then rev (take (2 + run_tail cmp True y rest) (x # y # rest))
      else take (2 + run_tail cmp False y rest) (x # y # rest))"

text \<open>
  \<^verbatim>\<open>BinaryInsertionSort(low, start, high)\<close>: the elements from \<open>start\<close> on are put, one after
  the other, into the sorted part in front of them. The place of such a pivot is found by
  bisection between \<open>left\<close> and \<open>right\<close>: with \<open>mid = left + ((right - left) >> 1)\<close>, a negative
  \<^verbatim>\<open>Compare(pivot, a[mid])\<close> sets \<open>right = mid\<close> and any other answer sets \<open>left = mid + 1\<close>.
\<close>

function binary_position :: "('a \<Rightarrow> 'a \<Rightarrow> int) \<Rightarrow> 'a \<Rightarrow> 'a list \<Rightarrow> nat \<Rightarrow> nat \<Rightarrow> nat" where
  "binary_position cmp pivot xs left right =
     (if left < right
      then (if cmp pivot (xs ! (left + (right - left) div 2)) < 0
            then binary_position cmp pivot xs left (left + (right - left) div 2)
            else binary_position cmp pivot xs (left + (right - left) div 2 + 1) right)
      else left)"
  by pat_completeness auto
termination
  by (relation "measure (\<lambda>(cmp, pivot, xs, left, right). right - left)") auto

declare binary_position.simps [simp del]

fun BinaryInsertionSort :: "('a \<Rightarrow> 'a \<Rightarrow> int) \<Rightarrow> 'a list \<Rightarrow> 'a list \<Rightarrow> 'a list" where
  "BinaryInsertionSort cmp sorted_part [] = sorted_part"
| "BinaryInsertionSort cmp sorted_part (pivot # rest) =
     BinaryInsertionSort cmp
       (take (binary_position cmp pivot sorted_part 0 (length sorted_part)) sorted_part @
        pivot #
        drop (binary_position cmp pivot sorted_part 0 (length sorted_part)) sorted_part)
       rest"

text \<open>
  \<^verbatim>\<open>GallopLeft\<close> and \<^verbatim>\<open>GallopRight\<close> are the same search with two tests. Let \<open>T i\<close> stand
  for \<^verbatim>\<open>Compare(a[base + i], key) < 0\<close> in \<^verbatim>\<open>GallopLeft\<close> and for the negation of
  \<^verbatim>\<open>Compare(key, a[base + i]) < 0\<close> in \<^verbatim>\<open>GallopRight\<close>. Starting at \<open>hint\<close>, the search
  walks to the right while \<open>T\<close> holds, or to the left while it fails, in steps
  \<open>offset = (offset << 1) + 1\<close> up to \<open>maxOfs\<close>, and then bisects between \<open>lastOfs + 1\<close> and
  \<open>offset\<close>, both translated back to offsets from \<open>base\<close>.
\<close>

function gallop_forward :: "(nat \<Rightarrow> bool) \<Rightarrow> nat \<Rightarrow> nat \<Rightarrow> nat \<Rightarrow> nat \<Rightarrow> nat \<times> nat" where
  "gallop_forward T hint maxOfs lastOfs offset =
     (if offset < maxOfs
      then (if T (hint + offset) then gallop_forward T hint maxOfs offset (2 * offset + 1)
            else (lastOfs, offset))
      else (lastOfs, offset))"
  by pat_completeness auto
termination
  by (relation "measure (\<lambda>(T, hint, maxOfs, lastOfs, offset). maxOfs - offset)") auto

declare gallop_forward.simps [simp del]

function gallop_backward :: "(nat \<Rightarrow> bool) \<Rightarrow> nat \<Rightarrow> nat \<Rightarrow> nat \<Rightarrow> nat \<Rightarrow> nat \<times> nat" where
  "gallop_backward T hint maxOfs lastOfs offset =
     (if offset < maxOfs
      then (if T (hint - offset) then (lastOfs, offset)
            else gallop_backward T hint maxOfs offset (2 * offset + 1))
      else (lastOfs, offset))"
  by pat_completeness auto
termination
  by (relation "measure (\<lambda>(T, hint, maxOfs, lastOfs, offset). maxOfs - offset)") auto

declare gallop_backward.simps [simp del]

function gallop_search :: "(nat \<Rightarrow> bool) \<Rightarrow> nat \<Rightarrow> nat \<Rightarrow> nat" where
  "gallop_search T lastOfs offset =
     (if lastOfs < offset
      then (if T (lastOfs + (offset - lastOfs) div 2)
            then gallop_search T (lastOfs + (offset - lastOfs) div 2 + 1) offset
            else gallop_search T lastOfs (lastOfs + (offset - lastOfs) div 2))
      else offset)"
  by pat_completeness auto
termination
  by (relation "measure (\<lambda>(T, lastOfs, offset). offset - lastOfs)") auto

declare gallop_search.simps [simp del]

definition gallop :: "(nat \<Rightarrow> bool) \<Rightarrow> nat \<Rightarrow> nat \<Rightarrow> nat" where
  "gallop T len hint =
     (if T hint
      then (case gallop_forward T hint (len - hint) 0 1 of
              (lastOfs, offset) \<Rightarrow>
                gallop_search T (lastOfs + hint + 1) (min offset (len - hint) + hint))
      else (case gallop_backward T hint (hint + 1) 0 1 of
              (lastOfs, offset) \<Rightarrow>
                gallop_search T (hint + 1 - min offset (hint + 1)) (hint - lastOfs)))"

definition GallopLeft :: "('a \<Rightarrow> 'a \<Rightarrow> int) \<Rightarrow> 'a \<Rightarrow> 'a list \<Rightarrow> nat \<Rightarrow> nat" where
  "GallopLeft cmp key xs hint = gallop (\<lambda>i. cmp (xs ! i) key < 0) (length xs) hint"

definition GallopRight :: "('a \<Rightarrow> 'a \<Rightarrow> int) \<Rightarrow> 'a \<Rightarrow> 'a list \<Rightarrow> nat \<Rightarrow> nat" where
  "GallopRight cmp key xs hint = gallop (\<lambda>i. \<not> cmp key (xs ! i) < 0) (length xs) hint"


text \<open>
  The state of a merge between two steps: in the loop that takes one element at a time
  (\<open>Straight\<close>, with \<open>minGallop\<close> and the numbers of consecutive wins of either run), in the
  galloping loop (\<open>Galloping\<close>), or finished (\<open>Merged\<close>, with the value left in
  \<^verbatim>\<open>sortState.minGallop\<close>). The list \<open>out\<close> is the part of the result that is written
  already, \<open>a\<close> and \<open>b\<close> are what is left of the two runs.
\<close>

definition kMinGallopWins :: nat where
  "kMinGallopWins = 7"

datatype 'a merging =
    Straight nat nat nat "'a list" "'a list" "'a list"
  | Galloping nat "'a list" "'a list" "'a list"
  | Merged "'a list" nat

text \<open>
  \<^verbatim>\<open>MergeLow\<close>: run A sits in the temporary array and the result is written from the left.
  The elements compared are the first of B and the first of A,
  \<^verbatim>\<open>Compare(workArray[cursorB], tempArray[cursorTemp])\<close>. The label \<^verbatim>\<open>Succeed\<close> of the source
  leaves \<open>out\<close>, then the rest of A, then the rest of B (one of the two is empty); the label
  \<^verbatim>\<open>CopyB\<close>, taken when one element of A is left, leaves \<open>out\<close>, the rest of B and then that
  element. The galloping loop runs once and then for as long as one of the two counts
  reaches \<^verbatim>\<open>kMinGallopWins\<close>; its body is split in two, the part that gallops through A
  and the part that gallops through B.
\<close>

definition MergeLow_straight ::
    "('a \<Rightarrow> 'a \<Rightarrow> int) \<Rightarrow> nat \<Rightarrow> nat \<Rightarrow> nat \<Rightarrow> 'a list \<Rightarrow> 'a list \<Rightarrow> 'a list \<Rightarrow> 'a merging" where
  "MergeLow_straight cmp minGallop nofWinsA nofWinsB out a b =
     (if a = [] \<or> b = [] then Merged (out @ a @ b) minGallop
      else if cmp (hd b) (hd a) < 0
      then (if tl b = [] then Merged (out @ [hd b] @ a) minGallop
            else if minGallop \<le> nofWinsB + 1
            then Galloping (minGallop + 1) (out @ [hd b]) a (tl b)
            else Straight minGallop 0 (nofWinsB + 1) (out @ [hd b]) a (tl b))
      else (if length (tl a) = 1 then Merged (out @ [hd a] @ b @ tl a) minGallop
            else if minGallop \<le> nofWinsA + 1
            then Galloping (minGallop + 1) (out @ [hd a]) (tl a) b
            else Straight minGallop (nofWinsA + 1) 0 (out @ [hd a]) (tl a) b))"

definition MergeLow_gallop_B ::
    "('a \<Rightarrow> 'a \<Rightarrow> int) \<Rightarrow> nat \<Rightarrow> nat \<Rightarrow> nat \<Rightarrow> 'a list \<Rightarrow> 'a list \<Rightarrow> 'a list \<Rightarrow> 'a merging" where
  "MergeLow_gallop_B cmp minGallop nofWinsA nofWinsB out a b =
     (if drop nofWinsB b = [] then Merged (out @ take nofWinsB b @ a) minGallop
      else if length (tl a) = 1
      then Merged (out @ take nofWinsB b @ [hd a] @ drop nofWinsB b @ tl a) minGallop
      else if kMinGallopWins \<le> nofWinsA \<or> kMinGallopWins \<le> nofWinsB
      then Galloping minGallop (out @ take nofWinsB b @ [hd a]) (tl a) (drop nofWinsB b)
      else Straight (minGallop + 1) 0 0 (out @ take nofWinsB b @ [hd a]) (tl a) (drop nofWinsB b))"

definition MergeLow_gallop_A ::
    "('a \<Rightarrow> 'a \<Rightarrow> int) \<Rightarrow> nat \<Rightarrow> nat \<Rightarrow> 'a list \<Rightarrow> 'a list \<Rightarrow> 'a list \<Rightarrow> 'a merging" where
  "MergeLow_gallop_A cmp minGallop nofWinsA out a b =
     (if 0 < nofWinsA \<and> length (drop nofWinsA a) = 1
      then Merged (out @ take nofWinsA a @ b @ drop nofWinsA a) minGallop
      else if drop nofWinsA a = [] then Merged (out @ take nofWinsA a @ b) minGallop
      else if tl b = [] then Merged (out @ take nofWinsA a @ [hd b] @ drop nofWinsA a) minGallop
      else MergeLow_gallop_B cmp minGallop nofWinsA
             (GallopLeft cmp (hd (drop nofWinsA a)) (tl b) 0)
             (out @ take nofWinsA a @ [hd b]) (drop nofWinsA a) (tl b))"

definition MergeLow_gallop ::
    "('a \<Rightarrow> 'a \<Rightarrow> int) \<Rightarrow> nat \<Rightarrow> 'a list \<Rightarrow> 'a list \<Rightarrow> 'a list \<Rightarrow> 'a merging" where
  "MergeLow_gallop cmp minGallop out a b =
     (if a = [] \<or> b = [] then Merged (out @ a @ b) minGallop
      else MergeLow_gallop_A cmp (max 1 (minGallop - 1)) (GallopRight cmp (hd b) a 0) out a b)"

text \<open>What a merge has still to place; every step makes it smaller.\<close>

definition remaining :: "'a merging \<Rightarrow> nat" where
  "remaining m =
     (case m of
        Straight minGallop nofWinsA nofWinsB out a b \<Rightarrow> Suc (length a + length b)
      | Galloping minGallop out a b \<Rightarrow> Suc (length a + length b)
      | Merged xs minGallop \<Rightarrow> 0)"

lemma remaining_MergeLow_straight:
  "remaining (MergeLow_straight cmp minGallop nofWinsA nofWinsB out a b) < Suc (length a + length b)"
  by (cases a; cases b) (simp_all add: MergeLow_straight_def remaining_def)

lemma remaining_MergeLow_gallop_B:
  "a \<noteq> [] \<Longrightarrow>
   remaining (MergeLow_gallop_B cmp minGallop nofWinsA nofWinsB out a b) < Suc (length a + length b)"
  by (cases a) (auto simp: MergeLow_gallop_B_def remaining_def)

lemma remaining_MergeLow_gallop_A:
  assumes "b \<noteq> []"
  shows "remaining (MergeLow_gallop_A cmp minGallop nofWinsA out a b) < Suc (length a + length b)"
proof (cases "drop nofWinsA a = [] \<or> tl b = [] \<or> (0 < nofWinsA \<and> length (drop nofWinsA a) = 1)")
  case True
  then show ?thesis by (auto simp: MergeLow_gallop_A_def remaining_def)
next
  case False
  then have "MergeLow_gallop_A cmp minGallop nofWinsA out a b =
      MergeLow_gallop_B cmp minGallop nofWinsA (GallopLeft cmp (hd (drop nofWinsA a)) (tl b) 0)
        (out @ take nofWinsA a @ [hd b]) (drop nofWinsA a) (tl b)"
    by (auto simp: MergeLow_gallop_A_def)
  moreover from False have "drop nofWinsA a \<noteq> []" by simp
  then have "remaining (MergeLow_gallop_B cmp minGallop nofWinsA
        (GallopLeft cmp (hd (drop nofWinsA a)) (tl b) 0)
        (out @ take nofWinsA a @ [hd b]) (drop nofWinsA a) (tl b)) <
      Suc (length (drop nofWinsA a) + length (tl b))"
    by (rule remaining_MergeLow_gallop_B)
  ultimately show ?thesis using assms by (cases b) auto
qed

lemma remaining_MergeLow_gallop:
  "remaining (MergeLow_gallop cmp minGallop out a b) < Suc (length a + length b)"
  using remaining_MergeLow_gallop_A [of b]
  by (simp add: MergeLow_gallop_def remaining_def)

function MergeLow_loop :: "('a \<Rightarrow> 'a \<Rightarrow> int) \<Rightarrow> 'a merging \<Rightarrow> 'a list \<times> nat" where
  "MergeLow_loop cmp (Merged xs minGallop) = (xs, minGallop)"
| "MergeLow_loop cmp (Straight minGallop nofWinsA nofWinsB out a b) =
     MergeLow_loop cmp (MergeLow_straight cmp minGallop nofWinsA nofWinsB out a b)"
| "MergeLow_loop cmp (Galloping minGallop out a b) =
     MergeLow_loop cmp (MergeLow_gallop cmp minGallop out a b)"
  by pat_completeness auto
termination
proof (relation "measure (\<lambda>(cmp, m). remaining m)")
  show "wf (measure (\<lambda>(cmp, m). remaining m))" by simp
next
  fix cmp :: "'a \<Rightarrow> 'a \<Rightarrow> int" and minGallop nofWinsA nofWinsB out a b
  show "((cmp, MergeLow_straight cmp minGallop nofWinsA nofWinsB out a b),
         (cmp, Straight minGallop nofWinsA nofWinsB out a b)) \<in> measure (\<lambda>(cmp, m). remaining m)"
    using remaining_MergeLow_straight [of cmp minGallop nofWinsA nofWinsB out a b]
    by (simp add: remaining_def)
next
  fix cmp :: "'a \<Rightarrow> 'a \<Rightarrow> int" and minGallop out a b
  show "((cmp, MergeLow_gallop cmp minGallop out a b), (cmp, Galloping minGallop out a b))
        \<in> measure (\<lambda>(cmp, m). remaining m)"
    using remaining_MergeLow_gallop [of cmp minGallop out a b]
    by (simp add: remaining_def)
qed

definition MergeLow ::
    "('a \<Rightarrow> 'a \<Rightarrow> int) \<Rightarrow> nat \<Rightarrow> 'a list \<Rightarrow> 'a list \<Rightarrow> 'a list \<times> nat" where
  "MergeLow cmp minGallop a b =
     (if b = [] then (a, minGallop)
      else if tl b = [] then (hd b # a, minGallop)
      else if length a = 1 then (hd b # tl b @ a, minGallop)
      else MergeLow_loop cmp (Straight minGallop 0 0 [hd b] a (tl b)))"


text \<open>
  \<^verbatim>\<open>MergeHigh\<close>: the mirror image. Run B sits in the temporary array, the result is written
  from the right, \<open>out\<close> is the tail of the result, and the elements compared are the last
  of B and the last of A, \<^verbatim>\<open>Compare(tempArray[cursorTemp], workArray[cursorA])\<close>. The gallops
  start at the last element (\<open>hint = length - 1\<close>) and the number of wins is what lies behind
  the place they return.
\<close>

definition MergeHigh_straight ::
    "('a \<Rightarrow> 'a \<Rightarrow> int) \<Rightarrow> nat \<Rightarrow> nat \<Rightarrow> nat \<Rightarrow> 'a list \<Rightarrow> 'a list \<Rightarrow> 'a list \<Rightarrow> 'a merging" where
  "MergeHigh_straight cmp minGallop nofWinsA nofWinsB out a b =
     (if a = [] \<or> b = [] then Merged (a @ b @ out) minGallop
      else if cmp (last b) (last a) < 0
      then (if butlast a = [] then Merged (b @ last a # out) minGallop
            else if minGallop \<le> nofWinsA + 1
            then Galloping (minGallop + 1) (last a # out) (butlast a) b
            else Straight minGallop (nofWinsA + 1) 0 (last a # out) (butlast a) b)
      else (if length (butlast b) = 1 then Merged (butlast b @ a @ last b # out) minGallop
            else if minGallop \<le> nofWinsB + 1
            then Galloping (minGallop + 1) (last b # out) a (butlast b)
            else Straight minGallop 0 (nofWinsB + 1) (last b # out) a (butlast b)))"

definition MergeHigh_gallop_B ::
    "('a \<Rightarrow> 'a \<Rightarrow> int) \<Rightarrow> nat \<Rightarrow> nat \<Rightarrow> nat \<Rightarrow> 'a list \<Rightarrow> 'a list \<Rightarrow> 'a list \<Rightarrow> 'a merging" where
  "MergeHigh_gallop_B cmp minGallop nofWinsA k out a b =
     (if 0 < length b - k \<and> length (take k b) = 1
      then Merged (take k b @ a @ drop k b @ out) minGallop
      else if take k b = [] then Merged (a @ drop k b @ out) minGallop
      else if butlast a = [] then Merged (take k b @ last a # drop k b @ out) minGallop
      else if kMinGallopWins \<le> nofWinsA \<or> kMinGallopWins \<le> length b - k
      then Galloping minGallop (last a # drop k b @ out) (butlast a) (take k b)
      else Straight (minGallop + 1) 0 0 (last a # drop k b @ out) (butlast a) (take k b))"

definition MergeHigh_gallop_A ::
    "('a \<Rightarrow> 'a \<Rightarrow> int) \<Rightarrow> nat \<Rightarrow> nat \<Rightarrow> 'a list \<Rightarrow> 'a list \<Rightarrow> 'a list \<Rightarrow> 'a merging" where
  "MergeHigh_gallop_A cmp minGallop k out a b =
     (if take k a = [] then Merged (b @ drop k a @ out) minGallop
      else if length (butlast b) = 1
      then Merged (butlast b @ take k a @ last b # drop k a @ out) minGallop
      else if butlast b = [] then Merged (take k a @ last b # drop k a @ out) minGallop
      else MergeHigh_gallop_B cmp minGallop (length a - k)
             (GallopLeft cmp (last (take k a)) (butlast b) (length (butlast b) - 1))
             (last b # drop k a @ out) (take k a) (butlast b))"

definition MergeHigh_gallop ::
    "('a \<Rightarrow> 'a \<Rightarrow> int) \<Rightarrow> nat \<Rightarrow> 'a list \<Rightarrow> 'a list \<Rightarrow> 'a list \<Rightarrow> 'a merging" where
  "MergeHigh_gallop cmp minGallop out a b =
     (if a = [] \<or> b = [] then Merged (a @ b @ out) minGallop
      else MergeHigh_gallop_A cmp (max 1 (minGallop - 1))
             (GallopRight cmp (last b) a (length a - 1)) out a b)"

lemma remaining_MergeHigh_straight:
  "remaining (MergeHigh_straight cmp minGallop nofWinsA nofWinsB out a b) < Suc (length a + length b)"
  by (cases a rule: rev_cases; cases b rule: rev_cases)
    (simp_all add: MergeHigh_straight_def remaining_def)

lemma remaining_MergeHigh_gallop_B:
  "a \<noteq> [] \<Longrightarrow>
   remaining (MergeHigh_gallop_B cmp minGallop nofWinsA k out a b) < Suc (length a + length b)"
  by (cases a rule: rev_cases) (auto simp: MergeHigh_gallop_B_def remaining_def)

lemma remaining_MergeHigh_gallop_A:
  assumes "b \<noteq> []"
  shows "remaining (MergeHigh_gallop_A cmp minGallop k out a b) < Suc (length a + length b)"
proof (cases "take k a = [] \<or> length (butlast b) = 1 \<or> butlast b = []")
  case True
  then show ?thesis by (auto simp: MergeHigh_gallop_A_def remaining_def)
next
  case False
  then have "MergeHigh_gallop_A cmp minGallop k out a b =
      MergeHigh_gallop_B cmp minGallop (length a - k)
        (GallopLeft cmp (last (take k a)) (butlast b) (length (butlast b) - 1))
        (last b # drop k a @ out) (take k a) (butlast b)"
    by (auto simp: MergeHigh_gallop_A_def)
  moreover from False have "take k a \<noteq> []" by simp
  then have "remaining (MergeHigh_gallop_B cmp minGallop (length a - k)
        (GallopLeft cmp (last (take k a)) (butlast b) (length (butlast b) - 1))
        (last b # drop k a @ out) (take k a) (butlast b)) <
      Suc (length (take k a) + length (butlast b))"
    by (rule remaining_MergeHigh_gallop_B)
  ultimately show ?thesis using assms by (cases b rule: rev_cases) auto
qed

lemma remaining_MergeHigh_gallop:
  "remaining (MergeHigh_gallop cmp minGallop out a b) < Suc (length a + length b)"
  using remaining_MergeHigh_gallop_A [of b]
  by (simp add: MergeHigh_gallop_def remaining_def)

function MergeHigh_loop :: "('a \<Rightarrow> 'a \<Rightarrow> int) \<Rightarrow> 'a merging \<Rightarrow> 'a list \<times> nat" where
  "MergeHigh_loop cmp (Merged xs minGallop) = (xs, minGallop)"
| "MergeHigh_loop cmp (Straight minGallop nofWinsA nofWinsB out a b) =
     MergeHigh_loop cmp (MergeHigh_straight cmp minGallop nofWinsA nofWinsB out a b)"
| "MergeHigh_loop cmp (Galloping minGallop out a b) =
     MergeHigh_loop cmp (MergeHigh_gallop cmp minGallop out a b)"
  by pat_completeness auto
termination
proof (relation "measure (\<lambda>(cmp, m). remaining m)")
  show "wf (measure (\<lambda>(cmp, m). remaining m))" by simp
next
  fix cmp :: "'a \<Rightarrow> 'a \<Rightarrow> int" and minGallop nofWinsA nofWinsB out a b
  show "((cmp, MergeHigh_straight cmp minGallop nofWinsA nofWinsB out a b),
         (cmp, Straight minGallop nofWinsA nofWinsB out a b)) \<in> measure (\<lambda>(cmp, m). remaining m)"
    using remaining_MergeHigh_straight [of cmp minGallop nofWinsA nofWinsB out a b]
    by (simp add: remaining_def)
next
  fix cmp :: "'a \<Rightarrow> 'a \<Rightarrow> int" and minGallop out a b
  show "((cmp, MergeHigh_gallop cmp minGallop out a b), (cmp, Galloping minGallop out a b))
        \<in> measure (\<lambda>(cmp, m). remaining m)"
    using remaining_MergeHigh_gallop [of cmp minGallop out a b]
    by (simp add: remaining_def)
qed

definition MergeHigh ::
    "('a \<Rightarrow> 'a \<Rightarrow> int) \<Rightarrow> nat \<Rightarrow> 'a list \<Rightarrow> 'a list \<Rightarrow> 'a list \<times> nat" where
  "MergeHigh cmp minGallop a b =
     (if a = [] then (b, minGallop)
      else if butlast a = [] then (b @ [last a], minGallop)
      else if length b = 1 then (b @ butlast a @ [last a], minGallop)
      else MergeHigh_loop cmp (Straight minGallop 0 0 [last a] (butlast a) b))"

text \<open>
  \<^verbatim>\<open>MergeAt(i)\<close> merges the runs \<open>i\<close> and \<open>i + 1\<close> of the stack of pending runs (a list of
  runs, the oldest first). The elements of A that are in place already, the first \<open>k\<close> with
  \<open>k\<close> from \<^verbatim>\<open>GallopRight(b[0], A, hint 0)\<close>, and the elements of B that are in place
  already, those from \<^verbatim>\<open>GallopLeft(a[last], B, hint lengthB - 1)\<close> on, stay out of the merge;
  \<^verbatim>\<open>MergeLow\<close> does it when what is left of A is not longer than what is left of B,
  \<^verbatim>\<open>MergeHigh\<close> otherwise.
\<close>

definition merge_runs ::
    "('a \<Rightarrow> 'a \<Rightarrow> int) \<Rightarrow> nat \<Rightarrow> 'a list \<Rightarrow> 'a list \<Rightarrow> 'a list \<times> nat" where
  "merge_runs cmp minGallop a b =
     (if a = [] \<or> b = [] then (a @ b, minGallop)
      else
        let k = GallopRight cmp (hd b) a 0 in
        if drop k a = [] then (a @ b, minGallop)
        else
          let lengthB = GallopLeft cmp (last a) b (length b - 1) in
          if take lengthB b = [] then (a @ b, minGallop)
          else
            (case (if length (drop k a) \<le> length (take lengthB b)
                   then MergeLow cmp minGallop (drop k a) (take lengthB b)
                   else MergeHigh cmp minGallop (drop k a) (take lengthB b)) of
               (merged, minGallop') \<Rightarrow> (take k a @ merged @ drop lengthB b, minGallop')))"

definition MergeAt ::
    "('a \<Rightarrow> 'a \<Rightarrow> int) \<Rightarrow> nat \<times> 'a list list \<Rightarrow> nat \<Rightarrow> nat \<times> 'a list list" where
  "MergeAt cmp state i =
     (case state of (minGallop, pendingRuns) \<Rightarrow>
        (case merge_runs cmp minGallop (pendingRuns ! i) (pendingRuns ! (i + 1)) of
           (merged, minGallop') \<Rightarrow>
             (minGallop', take i pendingRuns @ merged # drop (i + 2) pendingRuns)))"

text \<open>
  \<^verbatim>\<open>MergeCollapse\<close> and \<^verbatim>\<open>MergeForceCollapse\<close> decide from the lengths of the runs on the
  stack where to merge next. The two index functions are the bodies of their loops: the
  index handed to \<^verbatim>\<open>MergeAt\<close>, or \<open>None\<close> where the loop ends.
\<close>

definition RunInvariantEstablished :: "'a list list \<Rightarrow> nat \<Rightarrow> bool" where
  "RunInvariantEstablished pendingRuns n =
     (n < 2 \<or>
      length (pendingRuns ! (n - 1)) + length (pendingRuns ! n) < length (pendingRuns ! (n - 2)))"

definition MergeCollapse_index :: "'a list list \<Rightarrow> nat option" where
  "MergeCollapse_index pendingRuns =
     (if 1 < length pendingRuns
      then
        let n = length pendingRuns - 2 in
        if \<not> RunInvariantEstablished pendingRuns (n + 1) \<or> \<not> RunInvariantEstablished pendingRuns n
        then (if length (pendingRuns ! (n - 1)) < length (pendingRuns ! (n + 1))
              then Some (n - 1) else Some n)
        else if length (pendingRuns ! n) \<le> length (pendingRuns ! (n + 1)) then Some n
        else None
      else None)"

definition MergeForceCollapse_index :: "'a list list \<Rightarrow> nat option" where
  "MergeForceCollapse_index pendingRuns =
     (if 1 < length pendingRuns
      then
        let n = length pendingRuns - 2 in
        if 0 < n \<and> length (pendingRuns ! (n - 1)) < length (pendingRuns ! (n + 1))
        then Some (n - 1) else Some n
      else None)"

lemma length_MergeAt:
  "i + 2 \<le> length (snd state) \<Longrightarrow> length (snd (MergeAt cmp state i)) < length (snd state)"
  by (auto simp: MergeAt_def split: prod.splits)

lemma MergeCollapse_index_bound:
  "MergeCollapse_index pendingRuns = Some i \<Longrightarrow> i + 2 \<le> length pendingRuns"
  by (auto simp: MergeCollapse_index_def Let_def split: if_splits)

lemma MergeForceCollapse_index_bound:
  "MergeForceCollapse_index pendingRuns = Some i \<Longrightarrow> i + 2 \<le> length pendingRuns"
  by (auto simp: MergeForceCollapse_index_def Let_def split: if_splits)

function MergeCollapse ::
    "('a \<Rightarrow> 'a \<Rightarrow> int) \<Rightarrow> nat \<times> 'a list list \<Rightarrow> nat \<times> 'a list list" where
  "MergeCollapse cmp state =
     (case MergeCollapse_index (snd state) of
        None \<Rightarrow> state
      | Some i \<Rightarrow> MergeCollapse cmp (MergeAt cmp state i))"
  by pat_completeness auto
termination
  by (relation "measure (\<lambda>(cmp, state). length (snd state))")
    (auto dest!: MergeCollapse_index_bound intro: length_MergeAt)

declare MergeCollapse.simps [simp del]

function MergeForceCollapse ::
    "('a \<Rightarrow> 'a \<Rightarrow> int) \<Rightarrow> nat \<times> 'a list list \<Rightarrow> nat \<times> 'a list list" where
  "MergeForceCollapse cmp state =
     (case MergeForceCollapse_index (snd state) of
        None \<Rightarrow> state
      | Some i \<Rightarrow> MergeForceCollapse cmp (MergeAt cmp state i))"
  by pat_completeness auto
termination
  by (relation "measure (\<lambda>(cmp, state). length (snd state))")
    (auto dest!: MergeForceCollapse_index_bound intro: length_MergeAt)

declare MergeForceCollapse.simps [simp del]

text \<open>
  \<^verbatim>\<open>ArrayTimSortImpl\<close>: as long as elements remain, the next run is counted, extended by
  binary insertion to \<open>min(minRunLength, remaining)\<close> elements when it is shorter than
  \<open>minRunLength\<close>, pushed on the stack, and the stack is collapsed; at the end everything is
  merged into one run. An array of fewer than two elements is returned as it is.
  \<^verbatim>\<open>sortState.minGallop\<close> starts at \<^verbatim>\<open>kMinGallopWins\<close>.
\<close>

definition next_run :: "('a \<Rightarrow> 'a \<Rightarrow> int) \<Rightarrow> nat \<Rightarrow> 'a list \<Rightarrow> 'a list" where
  "next_run cmp minRunLength xs =
     (let run = CountAndMakeRun cmp xs in
      if length run < minRunLength
      then BinaryInsertionSort cmp run
             (take (min minRunLength (length xs) - length run) (drop (length run) xs))
      else run)"

lemma length_BinaryInsertionSort:
  "length (BinaryInsertionSort cmp sorted_part pending) = length sorted_part + length pending"
proof (induction pending arbitrary: sorted_part)
  case Nil
  then show ?case by simp
next
  case (Cons pivot rest)
  have "length (take (binary_position cmp pivot sorted_part 0 (length sorted_part)) sorted_part @
      pivot # drop (binary_position cmp pivot sorted_part 0 (length sorted_part)) sorted_part) =
      Suc (length sorted_part)"
    by simp
  with Cons.IH show ?case by (simp del: length_append length_take length_drop)
qed

lemma CountAndMakeRun_not_Nil: "xs \<noteq> [] \<Longrightarrow> CountAndMakeRun cmp xs \<noteq> []"
  by (cases "(cmp, xs)" rule: CountAndMakeRun.cases) auto

lemma next_run_not_Nil: "xs \<noteq> [] \<Longrightarrow> next_run cmp minRunLength xs \<noteq> []"
proof -
  assume "xs \<noteq> []"
  then have "0 < length (CountAndMakeRun cmp xs)"
    using CountAndMakeRun_not_Nil [of xs cmp] by simp
  then have "0 < length (next_run cmp minRunLength xs)"
    unfolding next_run_def Let_def length_BinaryInsertionSort if_distrib [of length] by simp
  then show ?thesis by simp
qed

function ArrayTimSortImpl_loop ::
    "('a \<Rightarrow> 'a \<Rightarrow> int) \<Rightarrow> nat \<Rightarrow> nat \<times> 'a list list \<Rightarrow> 'a list \<Rightarrow> nat \<times> 'a list list" where
  "ArrayTimSortImpl_loop cmp minRunLength state remaining_part =
     (if remaining_part = [] then state
      else ArrayTimSortImpl_loop cmp minRunLength
             (MergeCollapse cmp
                (fst state, snd state @ [next_run cmp minRunLength remaining_part]))
             (drop (length (next_run cmp minRunLength remaining_part)) remaining_part))"
  by pat_completeness auto
termination
proof (relation "measure (\<lambda>(cmp, minRunLength, state, remaining_part). length remaining_part)")
  show "wf (measure (\<lambda>(cmp, minRunLength, state, remaining_part). length remaining_part))"
    by simp
next
  fix cmp :: "'a \<Rightarrow> 'a \<Rightarrow> int" and minRunLength state and remaining_part :: "'a list"
  assume "remaining_part \<noteq> []"
  then have "0 < length (next_run cmp minRunLength remaining_part)" and "0 < length remaining_part"
    by (simp_all add: next_run_not_Nil)
  then show "((cmp, minRunLength,
        MergeCollapse cmp (fst state, snd state @ [next_run cmp minRunLength remaining_part]),
        drop (length (next_run cmp minRunLength remaining_part)) remaining_part),
      (cmp, minRunLength, state, remaining_part))
      \<in> measure (\<lambda>(cmp, minRunLength, state, remaining_part). length remaining_part)"
    by simp
qed

declare ArrayTimSortImpl_loop.simps [simp del]

definition Array_sort :: "('a \<Rightarrow> 'a \<Rightarrow> int) \<Rightarrow> 'a list \<Rightarrow> 'a list" where
  "Array_sort cmp xs =
     (if length xs < 2 then xs
      else concat (snd (MergeForceCollapse cmp
             (ArrayTimSortImpl_loop cmp (ComputeMinRunLength (length xs))
                (kMinGallopWins, []) xs))))"

subsection \<open>getPosts\<close>

definition compare_posts :: "(string \<Rightarrow> number) \<Rightarrow> obj \<Rightarrow> obj \<Rightarrow> int" where
  \<comment> \<open>\<^verbatim>\<open>(a, b) => Date.parse(a.date) < Date.parse(b.date) ? 1 : -1\<close>\<close>
  "compare_posts parse a b =
     (if js_less (Date_parse parse (a ''date'')) (Date_parse parse (b ''date'')) then 1 else - 1)"

definition make_post :: "string \<Rightarrow> obj \<Rightarrow> obj" where
  \<comment> \<open>\<^verbatim>\<open>{ slug, ...data }\<close>: the properties of \<open>data\<close> are copied over the slug\<close>
  "make_post slug data = [''slug'' \<mapsto> slug] ++ data"

definition getPosts ::
  "(string \<Rightarrow> error + obj) \<Rightarrow> (string \<Rightarrow> number) \<Rightarrow> filesystem \<Rightarrow> error + obj list" where
  "getPosts matter parse fs =
     (case readdir fs ''./public/'' of
        Inl e \<Rightarrow> Inl e
      | Inr entries \<Rightarrow>
          let dirs = map name (filter isDirectory entries) in
          (case Promise_all (map (\<lambda>dir. readFile fs (''./public/'' @ dir @ ''/index.md'')) dirs) of
             Inl e \<Rightarrow> Inl e
           | Inr fileContents \<Rightarrow>
               (case Promise_all
                       (map (\<lambda>(slug, i).
                               (case matter (fileContents ! i) of
                                  Inl e \<Rightarrow> Inl e
                                | Inr data \<Rightarrow> Inr (make_post slug data)))
                            (zip dirs [0 ..< length dirs])) of
                  Inl e \<Rightarrow> Inl e
                | Inr posts \<Rightarrow> Inr (Array_sort (compare_posts parse) posts))))"

subsection \<open>The site metadata and generateFeed\<close>

text \<open>
  Strings are sequences of bytes; a character outside ASCII is written as its UTF-8
  encoding (the capital O with diaeresis of the author's name, the dash of the title).
\<close>

definition metadata_title :: string where
  "metadata_title =
     ''refactored '' @ [CHR 0xE2, CHR 0x80, CHR 0x94] @ '' A blog by Sulhadin '' @
     [CHR 0xC3, CHR 0x96] @ ''ney''"

definition metadata_description :: string where
  "metadata_description = ''A blog by Sulhadin '' @ [CHR 0xC3, CHR 0x96] @ ''ney''"

definition site_url :: string where
  "site_url = ''https://sulhadin.com/''"

text \<open>The options object, with the nested objects \<^verbatim>\<open>author\<close> and \<^verbatim>\<open>feedLinks\<close> flattened.\<close>

record feedOptions =
  author_name :: string
  author_email :: string
  author_link :: string
  feed_description :: string
  favicon :: string
  feedLinks_atom :: string
  feedLinks_rss :: string
  generator :: string
  feed_id :: string
  image :: string
  feed_link :: string
  feed_title :: string

definition the_feedOptions :: feedOptions where
  "the_feedOptions =
     \<lparr> author_name = ''Sulhadin '' @ [CHR 0xC3, CHR 0x96] @ ''ney'',
       author_email = ''sulhadin@gmail.com'',
       author_link = site_url,
       feed_description = metadata_description,
       favicon = site_url @ ''/icon.png'',
       feedLinks_atom = site_url @ ''atom.xml'',
       feedLinks_rss = site_url @ ''rss.xml'',
       generator = ''Feed for Node.js'',
       feed_id = site_url,
       image = ''https://github.com/sulhadin.png'',
       feed_link = site_url,
       feed_title = metadata_title \<rparr>"

text \<open>
  An item handed to \<^verbatim>\<open>addItem\<close>. The date is the time value of the \<^verbatim>\<open>Date\<close> object; the
  title and the description are whatever the post holds, possibly \<^verbatim>\<open>undefined\<close>.
\<close>

record item =
  date :: number
  description :: "string option"
  id' :: string
  link :: string
  title :: "string option"

record feed =
  options :: feedOptions
  items :: "item list"

definition new_Feed :: "feedOptions \<Rightarrow> feed" where
  "new_Feed opts = \<lparr> options = opts, items = [] \<rparr>"

definition addItem :: "feed \<Rightarrow> item \<Rightarrow> feed" where
  "addItem f it = f \<lparr> items := items f @ [it] \<rparr>"

definition feed_item :: "(string \<Rightarrow> number) \<Rightarrow> obj \<Rightarrow> item" where
  \<comment> \<open>the object literal inside the loop of \<^verbatim>\<open>generateFeed\<close>\<close>
  "feed_item parse post =
     \<lparr> date = new_Date parse (post ''date''),
       description = post ''spoiler'',
       id' = site_url @ ToString (post ''slug'') @ ''/'',
       link = site_url @ ToString (post ''slug'') @ ''/'',
       title = post ''title'' \<rparr>"

definition generateFeed ::
  "(string \<Rightarrow> error + obj) \<Rightarrow> (string \<Rightarrow> number) \<Rightarrow> filesystem \<Rightarrow> error + feed" where
  "generateFeed matter parse fs =
     (case getPosts matter parse fs of
        Inl e \<Rightarrow> Inl e
      | Inr posts \<Rightarrow>
          Inr (foldl (\<lambda>f post. addItem f (feed_item parse post)) (new_Feed the_feedOptions) posts))"

subsection \<open>Vocabulary of the statements\<close>

definition post_dirs :: "dirent list \<Rightarrow> string list" where
  \<comment> \<open>the value of \<^verbatim>\<open>dirs\<close> in \<^verbatim>\<open>getPosts\<close>: the names of the entries that are directories\<close>
  "post_dirs entries = map name (filter isDirectory entries)"

definition index_md :: "string \<Rightarrow> string" where
  \<comment> \<open>the path \<^verbatim>\<open>./public/${dir}/index.md\<close>\<close>
  "index_md dir = ''./public/'' @ dir @ ''/index.md''"

definition parse_post :: "(string \<Rightarrow> error + obj) \<Rightarrow> string \<Rightarrow> string \<Rightarrow> error + obj" where
  \<comment> \<open>the callback that builds one post from a slug and the text of its file\<close>
  "parse_post matter slug content =
     (case matter content of Inl e \<Rightarrow> Inl e | Inr data \<Rightarrow> Inr (make_post slug data))"

abbreviation newer_or_equal :: "(string \<Rightarrow> number) \<Rightarrow> obj \<Rightarrow> obj \<Rightarrow> bool" where
  "newer_or_equal parse a b \<equiv>
     js_greater_eq (Date_parse parse (a ''date'')) (Date_parse parse (b ''date''))"

subsection \<open>Example inputs\<close>

text \<open>
  A document whose front matter lists the given keys, each value a single-quoted YAML
  string, and whose body is empty.
\<close>

definition front_matter :: "(string \<times> string) list \<Rightarrow> string" where
  "front_matter kvs =
     ''---'' @ [CHR 0x0A] @
     concat (map (\<lambda>(k, v). k @ '': '' @ [CHR 0x27] @ v @ [CHR 0x27, CHR 0x0A]) kvs) @
     ''---'' @ [CHR 0x0A]"

definition fields_january :: "(string \<times> string) list" where
  "fields_january =
     [(''title'', ''January''), (''date'', ''2024-01-01''), (''spoiler'', ''Winter'')]"

definition fields_june :: "(string \<times> string) list" where
  "fields_june =
     [(''title'', ''June''), (''date'', ''2024-06-01''), (''spoiler'', ''Summer'')]"

definition fields_undated :: "(string \<times> string) list" where
  "fields_undated = [(''title'', ''Undated''), (''spoiler'', ''No date'')]"

definition fields_untitled :: "(string \<times> string) list" where
  "fields_untitled = [(''date'', ''2024-01-01''), (''spoiler'', ''No title'')]"

definition fields_renamed :: "(string \<times> string) list" where
  "fields_renamed =
     [(''title'', ''Renamed''), (''date'', ''2024-06-01''), (''spoiler'', ''Own slug''),
      (''slug'', ''other-name'')]"

text \<open>
  What the front-matter parser returns on the five example documents; the instance knows
  no other document.
\<close>

definition example_matter :: "string \<Rightarrow> error + obj" where
  "example_matter text =
     (case find (\<lambda>kvs. front_matter kvs = text)
             [fields_january, fields_june, fields_undated, fields_untitled, fields_renamed] of
        None \<Rightarrow> Inl (ParseError text)
      | Some kvs \<Rightarrow> Inr (map_of kvs))"

text \<open>
  What \<^verbatim>\<open>Date.parse\<close> returns on the two date strings of the examples (a date-only ISO
  string is midnight UTC); every other string, \<^verbatim>\<open>"undefined"\<close> among them, gives NaN.
\<close>

definition example_parse :: "string \<Rightarrow> number" where
  "example_parse = map_of [(''2024-01-01'', 1704067200000), (''2024-06-01'', 1717200000000)]"

definition post_january :: obj where
  "post_january = make_post ''january'' (map_of fields_january)"

definition post_june :: obj where
  "post_june = make_post ''june'' (map_of fields_june)"

definition post_undated :: obj where
  "post_undated = make_post ''undated'' (map_of fields_undated)"

definition post_untitled :: obj where
  "post_untitled = make_post ''untitled'' (map_of fields_untitled)"

definition post_renamed :: obj where
  "post_renamed = make_post ''original-name'' (map_of fields_renamed)"

definition directory :: "string \<Rightarrow> dirent" where
  "directory n = \<lparr> name = n, isDirectory = True \<rparr>"

definition plain_file :: "string \<Rightarrow> dirent" where
  "plain_file n = \<lparr> name = n, isDirectory = False \<rparr>"

definition public_fs :: "dirent list \<Rightarrow> (string \<times> string) list \<Rightarrow> filesystem" where
  \<comment> \<open>a file system with the given listing of \<^verbatim>\<open>./public/\<close> and the given files\<close>
  "public_fs entries texts =
     \<lparr> directories = [''./public/'' \<mapsto> entries], files = map_of texts \<rparr>"

definition file_january :: "string \<times> string" where
  "file_january = (''./public/january/index.md'', front_matter fields_january)"

definition file_june :: "string \<times> string" where
  "file_june = (''./public/june/index.md'', front_matter fields_june)"

definition file_undated :: "string \<times> string" where
  "file_undated = (''./public/undated/index.md'', front_matter fields_undated)"

definition fs_two_posts :: filesystem where
  "fs_two_posts =
     public_fs [directory ''january'', plain_file ''avi.jpg'', directory ''june'']
       [file_january, file_june]"

definition fs_two_posts_more_files :: filesystem where
  "fs_two_posts_more_files =
     public_fs [plain_file ''icon.png'', directory ''january'', directory ''june'']
       [file_january, file_june, (''./public/icon.png'', ''PNG'')]"

definition fs_june_undated_january :: filesystem where
  "fs_june_undated_january =
     public_fs [directory ''june'', directory ''undated'', directory ''january'']
       [file_january, file_june, file_undated]"

definition fs_january_undated_june :: filesystem where
  "fs_january_undated_june =
     public_fs [directory ''january'', directory ''undated'', directory ''june'']
       [file_january, file_june, file_undated]"

definition fs_untitled :: filesystem where
  "fs_untitled =
     public_fs [directory ''untitled'']
       [(''./public/untitled/index.md'', front_matter fields_untitled)]"

definition fs_renamed :: filesystem where
  "fs_renamed =
     public_fs [directory ''original-name'']
       [(''./public/original-name/index.md'', front_matter fields_renamed)]"

text \<open>A directory that holds a translation only, next to a complete one.\<close>

definition fs_missing_index :: filesystem where
  "fs_missing_index =
     public_fs [directory ''january'', directory ''truthy'']
       [file_january, (''./public/truthy/index.tr.md'', front_matter fields_june)]"

section \<open>Auxiliary facts\<close>

subsection \<open>Promise.all\<close>

lemma Promise_all_map_Inr: "Promise_all (map Inr xs) = Inr xs"
  by (induction xs) simp_all

lemma Promise_all_Inr_D: "Promise_all rs = Inr xs \<Longrightarrow> rs = map Inr xs"
proof (induction rs arbitrary: xs)
  case Nil
  then show ?case by simp
next
  case (Cons r rs)
  show ?case
  proof (cases r)
    case (Inl e)
    with Cons.prems show ?thesis by simp
  next
    case (Inr x)
    with Cons.prems obtain ys where "Promise_all rs = Inr ys" and "xs = x # ys"
      by (auto split: sum.splits)
    with Cons.IH Inr show ?thesis by simp
  qed
qed

lemma Promise_all_Inr_iff: "Promise_all rs = Inr xs \<longleftrightarrow> rs = map Inr xs"
  using Promise_all_Inr_D Promise_all_map_Inr by blast

lemma Promise_all_Inl_mem: "Promise_all rs = Inl e \<Longrightarrow> Inl e \<in> set rs"
proof (induction rs)
  case Nil
  then show ?case by simp
next
  case (Cons r rs)
  then show ?case by (cases r) (auto split: sum.splits)
qed

lemma Promise_all_rejects: "Inl e \<in> set rs \<Longrightarrow> \<exists>e'. Promise_all rs = Inl e'"
proof (induction rs)
  case Nil
  then show ?case by simp
next
  case (Cons r rs)
  then show ?case by (cases r) (auto split: sum.splits)
qed

subsection \<open>The sort rearranges its input\<close>

lemma mset_BinaryInsertionSort:
  "mset (BinaryInsertionSort cmp sorted_part pending) = mset sorted_part + mset pending"
proof (induction pending arbitrary: sorted_part)
  case Nil
  then show ?case by simp
next
  case (Cons pivot rest)
  let ?p = "binary_position cmp pivot sorted_part 0 (length sorted_part)"
  have "mset (take ?p sorted_part @ pivot # drop ?p sorted_part) = add_mset pivot (mset sorted_part)"
    by (metis append_take_drop_id mset_append union_mset_add_mset_right mset.simps(2))
  with Cons.IH show ?case by simp
qed

lemma take_length_take: "take (length (take n xs)) xs = take n xs"
  by (cases "n \<le> length xs") (simp_all add: min_def)

lemma CountAndMakeRun_prefix:
  "mset (CountAndMakeRun cmp xs) = mset (take (length (CountAndMakeRun cmp xs)) xs)"
proof (cases "(cmp, xs)" rule: CountAndMakeRun.cases)
  case (3 cmp' x y rest)
  then obtain n where "CountAndMakeRun cmp xs = rev (take n xs) \<or> CountAndMakeRun cmp xs = take n xs"
    by (cases "cmp y x < 0") (simp_all del: take_Suc_Cons, blast+)
  then have "mset (CountAndMakeRun cmp xs) = mset (take n xs)"
    and "length (CountAndMakeRun cmp xs) = length (take n xs)"
    by auto
  then show ?thesis by (simp only: take_length_take)
qed simp_all

lemma length_CountAndMakeRun_le: "length (CountAndMakeRun cmp xs) \<le> length xs"
  by (cases "(cmp, xs)" rule: CountAndMakeRun.cases) auto

lemma length_next_run:
  "length (next_run cmp minRunLength xs) =
     (if length (CountAndMakeRun cmp xs) < minRunLength then min minRunLength (length xs)
      else length (CountAndMakeRun cmp xs))"
  using length_CountAndMakeRun_le [of cmp xs]
  by (auto simp: next_run_def Let_def length_BinaryInsertionSort)

lemma mset_take_add_take_drop:
  "r \<le> f \<Longrightarrow> mset (take r xs) + mset (take (f - r) (drop r xs)) = mset (take f xs)"
proof -
  assume "r \<le> f"
  then have "take f xs = take r xs @ take (f - r) (drop r xs)"
    by (metis le_add_diff_inverse take_add)
  then show ?thesis by simp
qed

lemma next_run_prefix:
  "mset (next_run cmp minRunLength xs) = mset (take (length (next_run cmp minRunLength xs)) xs)"
proof (cases "length (CountAndMakeRun cmp xs) < minRunLength")
  case True
  let ?r = "length (CountAndMakeRun cmp xs)"
  let ?f = "min minRunLength (length xs)"
  from True have "?r \<le> ?f" using length_CountAndMakeRun_le [of cmp xs] by simp
  then have "mset (take ?r xs) + mset (take (?f - ?r) (drop ?r xs)) = mset (take ?f xs)"
    by (rule mset_take_add_take_drop)
  moreover from True have "length (next_run cmp minRunLength xs) = ?f"
    by (simp add: length_next_run)
  moreover from True have "mset (next_run cmp minRunLength xs) =
      mset (CountAndMakeRun cmp xs) + mset (take (?f - ?r) (drop ?r xs))"
    by (simp add: next_run_def Let_def mset_BinaryInsertionSort)
  ultimately show ?thesis
    by (simp only: CountAndMakeRun_prefix [symmetric])
next
  case False
  then show ?thesis
    by (simp add: next_run_def Let_def CountAndMakeRun_prefix [symmetric])
qed

lemma mset_next_run:
  "mset (next_run cmp minRunLength xs) +
     mset (drop (length (next_run cmp minRunLength xs)) xs) = mset xs"
  by (metis next_run_prefix append_take_drop_id mset_append)

definition merging_elements :: "'a merging \<Rightarrow> 'a multiset" where
  "merging_elements m =
     (case m of
        Straight minGallop nofWinsA nofWinsB out a b \<Rightarrow> mset out + mset a + mset b
      | Galloping minGallop out a b \<Rightarrow> mset out + mset a + mset b
      | Merged xs minGallop \<Rightarrow> mset xs)"

lemma merging_elements_simps:
  "merging_elements (Straight minGallop nofWinsA nofWinsB out a b) = mset out + mset a + mset b"
  "merging_elements (Galloping minGallop out a b) = mset out + mset a + mset b"
  "merging_elements (Merged xs minGallop) = mset xs"
  by (simp_all add: merging_elements_def)

lemma mset_hd_tl: "xs \<noteq> [] \<Longrightarrow> add_mset (hd xs) (mset (tl xs)) = mset xs"
  by (cases xs) simp_all

lemma mset_last_butlast: "xs \<noteq> [] \<Longrightarrow> add_mset (last xs) (mset (butlast xs)) = mset xs"
  by (cases xs rule: rev_cases) simp_all

lemma mset_take_drop: "mset (take n xs) + mset (drop n xs) = mset xs"
  by (metis append_take_drop_id mset_append)

lemma contents_MergeLow_straight:
  "merging_elements (MergeLow_straight cmp minGallop nofWinsA nofWinsB out a b) =
     mset out + mset a + mset b"
  by (cases a; cases b) (simp_all add: MergeLow_straight_def merging_elements_simps)

lemma contents_MergeLow_gallop_B:
  assumes "a \<noteq> []"
  shows "merging_elements (MergeLow_gallop_B cmp minGallop nofWinsA nofWinsB out a b) =
     mset out + mset a + mset b"
proof -
  define b1 where "b1 = take nofWinsB b"
  define b2 where "b2 = drop nofWinsB b"
  have b: "mset b = mset b1 + mset b2"
    by (simp add: b1_def b2_def mset_take_drop)
  from assms obtain x a' where a: "a = x # a'" by (cases a) auto
  show ?thesis
    unfolding MergeLow_gallop_B_def b1_def [symmetric] b2_def [symmetric]
    by (simp add: a b merging_elements_simps)
qed

lemma contents_MergeLow_gallop_A:
  assumes "b \<noteq> []"
  shows "merging_elements (MergeLow_gallop_A cmp minGallop nofWinsA out a b) =
     mset out + mset a + mset b"
proof -
  define a1 where "a1 = take nofWinsA a"
  define a2 where "a2 = drop nofWinsA a"
  have a: "mset a = mset a1 + mset a2"
    by (simp add: a1_def a2_def mset_take_drop)
  from assms obtain y b' where b: "b = y # b'" by (cases b) auto
  have B: "merging_elements (MergeLow_gallop_B cmp minGallop v w (out @ a1 @ [y]) a2 b') =
      mset (out @ a1 @ [y]) + mset a2 + mset b'" if "a2 \<noteq> []" for v w
    using that by (rule contents_MergeLow_gallop_B)
  show ?thesis
    unfolding MergeLow_gallop_A_def a1_def [symmetric] a2_def [symmetric]
    by (simp add: a b B merging_elements_simps)
qed

lemma contents_MergeLow_gallop:
  "merging_elements (MergeLow_gallop cmp minGallop out a b) = mset out + mset a + mset b"
  using contents_MergeLow_gallop_A [of b]
  by (simp add: MergeLow_gallop_def merging_elements_simps)

lemma mset_MergeLow_loop: "mset (fst (MergeLow_loop cmp m)) = merging_elements m"
proof (induction cmp m rule: MergeLow_loop.induct)
  case (1 cmp xs minGallop)
  then show ?case by (simp add: merging_elements_simps)
next
  case (2 cmp minGallop nofWinsA nofWinsB out a b)
  then show ?case by (simp add: contents_MergeLow_straight merging_elements_simps)
next
  case (3 cmp minGallop out a b)
  then show ?case by (simp add: contents_MergeLow_gallop merging_elements_simps)
qed

lemma mset_MergeLow: "mset (fst (MergeLow cmp minGallop a b)) = mset a + mset b"
proof (cases b)
  case Nil
  then show ?thesis by (simp add: MergeLow_def)
next
  case (Cons y b')
  then show ?thesis
    by (simp add: MergeLow_def mset_MergeLow_loop merging_elements_simps del: MergeLow_loop.simps)
qed

lemma contents_MergeHigh_straight:
  "merging_elements (MergeHigh_straight cmp minGallop nofWinsA nofWinsB out a b) =
     mset out + mset a + mset b"
  by (cases a rule: rev_cases; cases b rule: rev_cases)
    (simp_all add: MergeHigh_straight_def merging_elements_simps)

lemma contents_MergeHigh_gallop_B:
  assumes "a \<noteq> []"
  shows "merging_elements (MergeHigh_gallop_B cmp minGallop nofWinsA k out a b) =
     mset out + mset a + mset b"
proof -
  define b1 where "b1 = take k b"
  define b2 where "b2 = drop k b"
  have b: "mset b = mset b1 + mset b2"
    by (simp add: b1_def b2_def mset_take_drop)
  from assms obtain x a' where a: "a = a' @ [x]" by (cases a rule: rev_cases) auto
  show ?thesis
    unfolding MergeHigh_gallop_B_def b1_def [symmetric] b2_def [symmetric]
    by (simp add: a b merging_elements_simps)
qed

lemma contents_MergeHigh_gallop_A:
  assumes "b \<noteq> []"
  shows "merging_elements (MergeHigh_gallop_A cmp minGallop k out a b) =
     mset out + mset a + mset b"
proof -
  define a1 where "a1 = take k a"
  define a2 where "a2 = drop k a"
  have a: "mset a = mset a1 + mset a2"
    by (simp add: a1_def a2_def mset_take_drop)
  from assms obtain y b' where b: "b = b' @ [y]" by (cases b rule: rev_cases) auto
  have B: "merging_elements (MergeHigh_gallop_B cmp minGallop n w (y # a2 @ out) a1 b') =
      mset (y # a2 @ out) + mset a1 + mset b'" if "a1 \<noteq> []" for w n
    using that by (rule contents_MergeHigh_gallop_B)
  show ?thesis
    unfolding MergeHigh_gallop_A_def a1_def [symmetric] a2_def [symmetric]
    by (simp add: a b B merging_elements_simps)
qed

lemma contents_MergeHigh_gallop:
  "merging_elements (MergeHigh_gallop cmp minGallop out a b) = mset out + mset a + mset b"
  using contents_MergeHigh_gallop_A [of b]
  by (simp add: MergeHigh_gallop_def merging_elements_simps)

lemma mset_MergeHigh_loop: "mset (fst (MergeHigh_loop cmp m)) = merging_elements m"
proof (induction cmp m rule: MergeHigh_loop.induct)
  case (1 cmp xs minGallop)
  then show ?case by (simp add: merging_elements_simps)
next
  case (2 cmp minGallop nofWinsA nofWinsB out a b)
  then show ?case by (simp add: contents_MergeHigh_straight merging_elements_simps)
next
  case (3 cmp minGallop out a b)
  then show ?case by (simp add: contents_MergeHigh_gallop merging_elements_simps)
qed

lemma mset_MergeHigh: "mset (fst (MergeHigh cmp minGallop a b)) = mset a + mset b"
proof (cases a rule: rev_cases)
  case Nil
  then show ?thesis by (simp add: MergeHigh_def)
next
  case (snoc a' x)
  then show ?thesis
    by (simp add: MergeHigh_def mset_MergeHigh_loop merging_elements_simps del: MergeHigh_loop.simps)
qed

lemma mset_merge_runs: "mset (fst (merge_runs cmp minGallop a b)) = mset a + mset b"
proof -
  define k where "k = GallopRight cmp (hd b) a 0"
  define l where "l = GallopLeft cmp (last a) b (length b - 1)"
  define a1 where "a1 = take k a"
  define a2 where "a2 = drop k a"
  define b1 where "b1 = take l b"
  define b2 where "b2 = drop l b"
  define r where "r = (if length a2 \<le> length b1
      then MergeLow cmp minGallop a2 b1 else MergeHigh cmp minGallop a2 b1)"
  have r: "mset (fst r) = mset a2 + mset b1"
    by (simp add: r_def mset_MergeLow mset_MergeHigh)
  have "mset a = mset a1 + mset a2" "mset b = mset b1 + mset b2"
    by (simp_all add: a1_def a2_def b1_def b2_def mset_take_drop)
  then have whole: "mset (a1 @ fst r @ b2) = mset a + mset b"
    by (simp add: r)
  have "fst (merge_runs cmp minGallop a b) = a @ b \<or>
      fst (merge_runs cmp minGallop a b) = a1 @ fst r @ b2"
    unfolding merge_runs_def Let_def k_def [symmetric] l_def [symmetric]
      a1_def [symmetric] a2_def [symmetric] b1_def [symmetric] b2_def [symmetric]
      r_def [symmetric]
    by (simp add: case_prod_unfold)
  with whole show ?thesis by auto
qed

lemma mset_concat_MergeAt:
  assumes "i + 2 \<le> length (snd state)"
  shows "mset (concat (snd (MergeAt cmp state i))) = mset (concat (snd state))"
proof -
  obtain minGallop pendingRuns where state: "state = (minGallop, pendingRuns)"
    by (cases state)
  with assms have i: "i < length pendingRuns" "Suc i < length pendingRuns" by simp_all
  then have split: "pendingRuns =
      take i pendingRuns @ pendingRuns ! i # pendingRuns ! Suc i # drop (i + 2) pendingRuns"
    by (metis Cons_nth_drop_Suc add_2_eq_Suc' id_take_nth_drop)
  obtain merged minGallop' where
    m: "merge_runs cmp minGallop (pendingRuns ! i) (pendingRuns ! Suc i) = (merged, minGallop')"
    by (cases "merge_runs cmp minGallop (pendingRuns ! i) (pendingRuns ! Suc i)")
  then have "mset merged = mset (pendingRuns ! i) + mset (pendingRuns ! Suc i)"
    using mset_merge_runs [of cmp minGallop "pendingRuns ! i" "pendingRuns ! Suc i"] by simp
  moreover have "mset (concat pendingRuns) =
      mset (concat (take i pendingRuns)) + (mset (pendingRuns ! i) + mset (pendingRuns ! Suc i)) +
      mset (concat (drop (i + 2) pendingRuns))"
    by (subst split) simp
  ultimately show ?thesis
    using m by (simp add: state MergeAt_def)
qed

lemma mset_concat_MergeCollapse:
  "mset (concat (snd (MergeCollapse cmp state))) = mset (concat (snd state))"
proof (induction cmp state rule: MergeCollapse.induct)
  case (1 cmp state)
  show ?case
  proof (cases "MergeCollapse_index (snd state)")
    case None
    then show ?thesis by (subst MergeCollapse.simps) simp
  next
    case (Some i)
    then have "i + 2 \<le> length (snd state)" by (rule MergeCollapse_index_bound)
    with Some "1.IH" show ?thesis
      by (subst MergeCollapse.simps) (simp add: mset_concat_MergeAt)
  qed
qed

lemma mset_concat_MergeForceCollapse:
  "mset (concat (snd (MergeForceCollapse cmp state))) = mset (concat (snd state))"
proof (induction cmp state rule: MergeForceCollapse.induct)
  case (1 cmp state)
  show ?case
  proof (cases "MergeForceCollapse_index (snd state)")
    case None
    then show ?thesis by (subst MergeForceCollapse.simps) simp
  next
    case (Some i)
    then have "i + 2 \<le> length (snd state)" by (rule MergeForceCollapse_index_bound)
    with Some "1.IH" show ?thesis
      by (subst MergeForceCollapse.simps) (simp add: mset_concat_MergeAt)
  qed
qed

lemma mset_concat_ArrayTimSortImpl_loop:
  "mset (concat (snd (ArrayTimSortImpl_loop cmp minRunLength state remaining_part))) =
     mset (concat (snd state)) + mset remaining_part"
proof (induction cmp minRunLength state remaining_part rule: ArrayTimSortImpl_loop.induct)
  case (1 cmp minRunLength state remaining_part)
  show ?case
  proof (cases "remaining_part = []")
    case True
    then show ?thesis by (subst ArrayTimSortImpl_loop.simps) simp
  next
    case False
    with "1.IH" show ?thesis
      using mset_next_run [of cmp minRunLength remaining_part]
      by (subst ArrayTimSortImpl_loop.simps)
        (simp add: mset_concat_MergeCollapse add.assoc)
  qed
qed

lemma mset_Array_sort: "mset (Array_sort cmp xs) = mset xs"
  by (simp add: Array_sort_def mset_concat_MergeForceCollapse mset_concat_ArrayTimSortImpl_loop)

lemma set_Array_sort: "set (Array_sort cmp xs) = set xs"
  by (metis mset_Array_sort set_mset_mset)

lemma length_Array_sort: "length (Array_sort cmp xs) = length xs"
  by (metis mset_Array_sort size_mset)

subsection \<open>The sort on arrays of up to three elements\<close>

lemma ComputeMinRunLength_small: "n < 64 \<Longrightarrow> ComputeMinRunLength n = n"
  by (simp add: ComputeMinRunLength_def ComputeMinRunLength_loop.simps)

lemma MergeCollapse_single: "MergeCollapse cmp (minGallop, [run]) = (minGallop, [run])"
  by (subst MergeCollapse.simps) (simp add: MergeCollapse_index_def)

lemma MergeForceCollapse_single: "MergeForceCollapse cmp (minGallop, [run]) = (minGallop, [run])"
  by (subst MergeForceCollapse.simps) (simp add: MergeForceCollapse_index_def)

lemma Array_sort_single_run:
  assumes "1 < length xs" and "length xs < 64"
  shows "Array_sort cmp xs = next_run cmp (length xs) xs"
proof -
  have len: "length (next_run cmp (length xs) xs) = length xs"
    using length_CountAndMakeRun_le [of cmp xs] by (auto simp: length_next_run)
  from assms have "xs \<noteq> []" by auto
  then have "ArrayTimSortImpl_loop cmp (length xs) (kMinGallopWins, []) xs =
      ArrayTimSortImpl_loop cmp (length xs)
        (MergeCollapse cmp (kMinGallopWins, [next_run cmp (length xs) xs])) []"
    by (subst ArrayTimSortImpl_loop.simps) (simp add: len)
  also have "\<dots> = (kMinGallopWins, [next_run cmp (length xs) xs])"
    by (subst ArrayTimSortImpl_loop.simps) (simp add: MergeCollapse_single)
  finally show ?thesis
    using assms by (simp add: Array_sort_def ComputeMinRunLength_small MergeForceCollapse_single)
qed

lemma Array_sort_Nil: "Array_sort cmp [] = []"
  by (simp add: Array_sort_def)

lemma Array_sort_1: "Array_sort cmp [x] = [x]"
  by (simp add: Array_sort_def)

lemma Array_sort_2: "Array_sort cmp [x, y] = (if cmp y x < 0 then [y, x] else [x, y])"
  by (simp add: Array_sort_single_run next_run_def)

lemma binary_position_2:
  "binary_position cmp pivot [p, q] 0 (Suc (Suc 0)) =
     (if cmp pivot q < 0 then (if cmp pivot p < 0 then 0 else 1) else 2)"
  by (simp add: binary_position.simps)

lemma Array_sort_3:
  "Array_sort cmp [x, y, z] =
     (if cmp y x < 0
      then (if cmp z y < 0 then [z, y, x]
            else if cmp z x < 0 then [y, z, x] else [y, x, z])
      else (if cmp z y < 0
            then (if cmp z x < 0 then [z, x, y] else [x, z, y])
            else [x, y, z]))"
  by (simp add: Array_sort_single_run next_run_def Let_def binary_position_2)

subsection \<open>When getPosts returns\<close>

lemma map_index_zip:
  "length cs = length ds \<Longrightarrow>
   map (\<lambda>(s, i). f s (cs ! i)) (zip ds [0 ..< length ds]) = map (\<lambda>(s, c). f s c) (zip ds cs)"
  by (rule nth_equalityI) simp_all

lemma parse_posts_Inr_iff:
  "length ds = length cs \<Longrightarrow>
   map (\<lambda>(s, c). parse_post matter s c) (zip ds cs) = map Inr ps \<longleftrightarrow>
   (\<exists>datas. map matter cs = map Inr datas \<and> ps = map (\<lambda>(s, d). make_post s d) (zip ds datas))"
proof (induction ds cs arbitrary: ps rule: list_induct2)
  case Nil
  then show ?case by auto
next
  case (Cons d ds c cs)
  show ?case
  proof
    assume l: "map (\<lambda>(s, c). parse_post matter s c) (zip (d # ds) (c # cs)) = map Inr ps"
    then obtain p ps' where ps: "ps = p # ps'" by (cases ps) auto
    from l ps have h: "parse_post matter d c = Inr p"
      and t: "map (\<lambda>(s, c). parse_post matter s c) (zip ds cs) = map Inr ps'" by auto
    from h obtain data where m: "matter c = Inr data" and p: "p = make_post d data"
      by (auto simp: parse_post_def split: sum.splits)
    from t Cons.IH obtain datas where
      "map matter cs = map Inr datas" "ps' = map (\<lambda>(s, d). make_post s d) (zip ds datas)"
      by blast
    with m p ps have "map matter (c # cs) = map Inr (data # datas) \<and>
        ps = map (\<lambda>(s, d). make_post s d) (zip (d # ds) (data # datas))" by simp
    then show "\<exists>datas. map matter (c # cs) = map Inr datas \<and>
        ps = map (\<lambda>(s, d). make_post s d) (zip (d # ds) datas)" by blast
  next
    assume "\<exists>datas. map matter (c # cs) = map Inr datas \<and>
        ps = map (\<lambda>(s, d). make_post s d) (zip (d # ds) datas)"
    then obtain datas where r: "map matter (c # cs) = map Inr datas"
      and ps: "ps = map (\<lambda>(s, d). make_post s d) (zip (d # ds) datas)" by blast
    from r obtain data datas' where dd: "datas = data # datas'" by (cases datas) auto
    with r have m: "matter c = Inr data" and t: "map matter cs = map Inr datas'" by auto
    from t Cons.IH [of "map (\<lambda>(s, d). make_post s d) (zip ds datas')"]
    have "map (\<lambda>(s, c). parse_post matter s c) (zip ds cs) =
        map Inr (map (\<lambda>(s, d). make_post s d) (zip ds datas'))" by blast
    with m ps dd show "map (\<lambda>(s, c). parse_post matter s c) (zip (d # ds) (c # cs)) = map Inr ps"
      by (simp add: parse_post_def)
  qed
qed

lemma getPosts_Inr_iff:
  "getPosts matter parse fs = Inr posts \<longleftrightarrow>
   (\<exists>entries contents datas.
      readdir fs ''./public/'' = Inr entries \<and>
      map (\<lambda>dir. readFile fs (index_md dir)) (post_dirs entries) = map Inr contents \<and>
      map matter contents = map Inr datas \<and>
      posts = Array_sort (compare_posts parse)
                (map (\<lambda>(slug, data). make_post slug data) (zip (post_dirs entries) datas)))"
proof (cases "readdir fs ''./public/''")
  case (Inl e)
  then show ?thesis by (simp add: getPosts_def)
next
  case (Inr entries)
  let ?dirs = "post_dirs entries"
  let ?reads = "map (\<lambda>dir. readFile fs (index_md dir)) ?dirs"
  show ?thesis
  proof (cases "Promise_all ?reads")
    case (Inl e)
    then have "\<not> (\<exists>contents. ?reads = map Inr contents)"
      by (auto simp flip: Promise_all_Inr_iff)
    with Inl Inr show ?thesis
      by (simp add: getPosts_def Let_def post_dirs_def index_md_def)
  next
    case r: (Inr contents)
    then have reads: "?reads = map Inr contents" by (simp add: Promise_all_Inr_iff)
    then have len: "length ?dirs = length contents" by (metis length_map)
    have idx: "map (\<lambda>(slug, i). parse_post matter slug (contents ! i)) (zip ?dirs [0 ..< length ?dirs]) =
        map (\<lambda>(s, c). parse_post matter s c) (zip ?dirs contents)"
      by (rule map_index_zip [OF len [symmetric]])
    have unique: "\<And>cs. ?reads = map Inr cs \<longleftrightarrow> cs = contents"
      using reads by (auto simp: inj_map_eq_map [OF inj_Inr])
    have "getPosts matter parse fs = Inr posts \<longleftrightarrow>
        (\<exists>ps. map (\<lambda>(s, c). parse_post matter s c) (zip ?dirs contents) = map Inr ps \<and>
              posts = Array_sort (compare_posts parse) ps)"
      using Inr r idx
      by (auto simp: getPosts_def Let_def post_dirs_def index_md_def parse_post_def [abs_def]
          Promise_all_Inr_iff Promise_all_map_Inr split: sum.splits)
    also have "\<dots> \<longleftrightarrow> (\<exists>datas. map matter contents = map Inr datas \<and>
        posts = Array_sort (compare_posts parse)
                  (map (\<lambda>(slug, data). make_post slug data) (zip ?dirs datas)))"
      using parse_posts_Inr_iff [OF len] by auto
    finally show ?thesis using Inr unique by auto
  qed
qed

lemma getPosts_returns:
  assumes "readdir fs ''./public/'' = Inr entries"
    and "map (\<lambda>dir. readFile fs (index_md dir)) (post_dirs entries) = map Inr contents"
    and "map matter contents = map Inr datas"
  shows "getPosts matter parse fs =
    Inr (Array_sort (compare_posts parse)
          (map (\<lambda>(slug, data). make_post slug data) (zip (post_dirs entries) datas)))"
  using assms getPosts_Inr_iff by blast

subsection \<open>The example inputs, evaluated\<close>

lemmas example_fields =
  fields_january_def fields_june_def fields_undated_def fields_untitled_def fields_renamed_def

lemma example_matter_january:
  "example_matter (front_matter fields_january) = Inr (map_of fields_january)"
  by (simp add: example_matter_def front_matter_def example_fields)

lemma example_matter_june:
  "example_matter (front_matter fields_june) = Inr (map_of fields_june)"
  by (simp add: example_matter_def front_matter_def example_fields)

lemma example_matter_undated:
  "example_matter (front_matter fields_undated) = Inr (map_of fields_undated)"
  by (simp add: example_matter_def front_matter_def example_fields)

lemma example_matter_untitled:
  "example_matter (front_matter fields_untitled) = Inr (map_of fields_untitled)"
  by (simp add: example_matter_def front_matter_def example_fields)

lemma example_matter_renamed:
  "example_matter (front_matter fields_renamed) = Inr (map_of fields_renamed)"
  by (simp add: example_matter_def front_matter_def example_fields)

lemmas example_matter_simps =
  example_matter_january example_matter_june example_matter_undated example_matter_untitled
  example_matter_renamed

lemma date_january: "Date_parse example_parse (post_january ''date'') = Some 1704067200000"
  by (simp add: Date_parse_def ToString_def example_parse_def post_january_def make_post_def
      fields_january_def)

lemma date_june: "Date_parse example_parse (post_june ''date'') = Some 1717200000000"
  by (simp add: Date_parse_def ToString_def example_parse_def post_june_def make_post_def
      fields_june_def)

lemma date_undated: "Date_parse example_parse (post_undated ''date'') = None"
  by (simp add: Date_parse_def ToString_def example_parse_def post_undated_def make_post_def
      fields_undated_def)

lemma date_untitled: "Date_parse example_parse (post_untitled ''date'') = Some 1704067200000"
  by (simp add: Date_parse_def ToString_def example_parse_def post_untitled_def make_post_def
      fields_untitled_def)

lemma date_renamed: "Date_parse example_parse (post_renamed ''date'') = Some 1717200000000"
  by (simp add: Date_parse_def ToString_def example_parse_def post_renamed_def make_post_def
      fields_renamed_def)

lemmas example_dates = date_january date_june date_undated date_untitled date_renamed

lemmas example_files =
  public_fs_def directory_def plain_file_def file_january_def file_june_def file_undated_def

lemmas getPosts_eval =
  getPosts_def readdir_def readFile_def example_files example_matter_simps
  Array_sort_1 Array_sort_2 Array_sort_3
  compare_posts_def js_less_def example_dates

lemma getPosts_two_posts:
  "getPosts example_matter example_parse fs_two_posts = Inr [post_june, post_january]"
  by (simp add: fs_two_posts_def getPosts_eval flip: post_january_def post_june_def)

lemma getPosts_two_posts_more_files:
  "getPosts example_matter example_parse fs_two_posts_more_files = Inr [post_june, post_january]"
  by (simp add: fs_two_posts_more_files_def getPosts_eval flip: post_january_def post_june_def)

lemma getPosts_june_undated_january:
  "getPosts example_matter example_parse fs_june_undated_january =
     Inr [post_january, post_undated, post_june]"
  by (simp add: fs_june_undated_january_def getPosts_eval
      flip: post_january_def post_june_def post_undated_def)

lemma getPosts_january_undated_june:
  "getPosts example_matter example_parse fs_january_undated_june =
     Inr [post_june, post_undated, post_january]"
  by (simp add: fs_january_undated_june_def getPosts_eval
      flip: post_january_def post_june_def post_undated_def)

lemma getPosts_untitled:
  "getPosts example_matter example_parse fs_untitled = Inr [post_untitled]"
  by (simp add: fs_untitled_def getPosts_eval flip: post_untitled_def)

lemma getPosts_renamed:
  "getPosts example_matter example_parse fs_renamed = Inr [post_renamed]"
  by (simp add: fs_renamed_def getPosts_eval flip: post_renamed_def)

lemma getPosts_missing_index:
  "getPosts example_matter example_parse fs_missing_index =
     Inl (ENOENT ''./public/truthy/index.md'')"
  by (simp add: fs_missing_index_def getPosts_eval)

subsection \<open>The example file systems, read\<close>

lemmas example_reads =
  readdir_def readFile_def index_md_def post_dirs_def example_files

lemma readdir_two_posts:
  "readdir fs_two_posts ''./public/'' =
     Inr [directory ''january'', plain_file ''avi.jpg'', directory ''june'']"
  by (simp add: fs_two_posts_def readdir_def public_fs_def)

lemma readFile_two_posts:
  "map (\<lambda>dir. readFile fs_two_posts (index_md dir))
       (post_dirs [directory ''january'', plain_file ''avi.jpg'', directory ''june'']) =
     map Inr [front_matter fields_january, front_matter fields_june]"
  by (simp add: fs_two_posts_def example_reads)

lemma matter_two_posts:
  "map example_matter [front_matter fields_january, front_matter fields_june] =
     map Inr [map_of fields_january, map_of fields_june]"
  by (simp add: example_matter_simps)

lemma readdir_june_undated_january:
  "readdir fs_june_undated_january ''./public/'' =
     Inr [directory ''june'', directory ''undated'', directory ''january'']"
  by (simp add: fs_june_undated_january_def readdir_def public_fs_def)

lemma readFile_june_undated_january:
  "map (\<lambda>dir. readFile fs_june_undated_january (index_md dir))
       (post_dirs [directory ''june'', directory ''undated'', directory ''january'']) =
     map Inr [front_matter fields_june, front_matter fields_undated, front_matter fields_january]"
  by (simp add: fs_june_undated_january_def example_reads)

lemma matter_june_undated_january:
  "map example_matter
       [front_matter fields_june, front_matter fields_undated, front_matter fields_january] =
     map Inr [map_of fields_june, map_of fields_undated, map_of fields_january]"
  by (simp add: example_matter_simps)

lemma readdir_untitled:
  "readdir fs_untitled ''./public/'' = Inr [directory ''untitled'']"
  by (simp add: fs_untitled_def readdir_def public_fs_def)

lemma readFile_untitled:
  "map (\<lambda>dir. readFile fs_untitled (index_md dir)) (post_dirs [directory ''untitled'']) =
     map Inr [front_matter fields_untitled]"
  by (simp add: fs_untitled_def example_reads)

lemma matter_untitled:
  "map example_matter [front_matter fields_untitled] = map Inr [map_of fields_untitled]"
  by (simp add: example_matter_simps)

lemma readdir_renamed:
  "readdir fs_renamed ''./public/'' = Inr [directory ''original-name'']"
  by (simp add: fs_renamed_def readdir_def public_fs_def)

lemma readFile_renamed:
  "map (\<lambda>dir. readFile fs_renamed (index_md dir)) (post_dirs [directory ''original-name'']) =
     map Inr [front_matter fields_renamed]"
  by (simp add: fs_renamed_def example_reads)

lemma matter_renamed:
  "map example_matter [front_matter fields_renamed] = map Inr [map_of fields_renamed]"
  by (simp add: example_matter_simps)

lemma readdir_missing_index:
  "readdir fs_missing_index ''./public/'' = Inr [directory ''january'', directory ''truthy'']"
  by (simp add: fs_missing_index_def readdir_def public_fs_def)

subsection \<open>Posts and feeds\<close>

lemma make_post_slug:
  "make_post slug data ''slug'' = Some (case data ''slug'' of None \<Rightarrow> slug | Some s \<Rightarrow> s)"
  by (simp add: make_post_def map_add_def split: option.splits)

lemma make_post_other: "k \<noteq> ''slug'' \<Longrightarrow> make_post slug data k = data k"
  by (simp add: make_post_def map_add_def split: option.splits)

lemma parsed_lengths:
  assumes "map (\<lambda>dir. readFile fs (index_md dir)) dirs = map Inr contents"
    and "map matter contents = map Inr datas"
  shows "length datas = length dirs"
  using assms by (metis length_map)

lemma getPosts_has_slug:
  assumes "getPosts matter parse fs = Inr posts" and "p \<in> set posts"
  shows "\<exists>slug. p ''slug'' = Some slug"
proof -
  from assms(1) obtain dirs datas where
    "posts = Array_sort (compare_posts parse)
       (map (\<lambda>(slug, data). make_post slug data) (zip dirs datas))"
    unfolding getPosts_Inr_iff by blast
  with assms(2) obtain slug data where "p = make_post slug data"
    by (auto simp: set_Array_sort)
  then show ?thesis by (simp add: make_post_slug)
qed

lemma items_foldl_addItem:
  "items (foldl (\<lambda>f post. addItem f (g post)) f0 posts) = items f0 @ map g posts"
  by (induction posts arbitrary: f0) (simp_all add: addItem_def)

lemma options_foldl_addItem:
  "options (foldl (\<lambda>f post. addItem f (g post)) f0 posts) = options f0"
  by (induction posts arbitrary: f0) (simp_all add: addItem_def)

lemma generateFeed_returns:
  assumes "getPosts matter parse fs = Inr posts"
  shows "generateFeed matter parse fs =
    Inr \<lparr> options = the_feedOptions, items = map (feed_item parse) posts \<rparr>"
proof -
  let ?f = "foldl (\<lambda>f post. addItem f (feed_item parse post)) (new_Feed the_feedOptions) posts"
  have "items ?f = map (feed_item parse) posts"
    by (simp add: items_foldl_addItem new_Feed_def)
  moreover have "options ?f = the_feedOptions"
    by (simp add: options_foldl_addItem new_Feed_def)
  ultimately have "?f = \<lparr> options = the_feedOptions, items = map (feed_item parse) posts \<rparr>"
    by (cases ?f) simp
  with assms show ?thesis by (simp add: generateFeed_def)
qed

section \<open>The claims\<close>

text \<open>
  C2 (as amended). A post whose date is missing or does not parse is not given a value of
  its own: its date reads as NaN, and the comparator answers -1 as soon as NaN stands on
  either side. The sort completes all the same, and \<^verbatim>\<open>getPosts\<close> returns every post it has
  built, whatever the dates are.
\<close>

theorem getPosts_completes_on_any_dates:
  assumes "readdir fs ''./public/'' = Inr entries"
    and "map (\<lambda>dir. readFile fs (index_md dir)) (post_dirs entries) = map Inr contents"
    and "map matter contents = map Inr datas"
  shows "\<exists>posts. getPosts matter parse fs = Inr posts \<and>
           mset posts =
             mset (map (\<lambda>(slug, data). make_post slug data) (zip (post_dirs entries) datas)) \<and>
           (\<forall>a b. Date_parse parse (a ''date'') = None \<or> Date_parse parse (b ''date'') = None \<longrightarrow>
                  compare_posts parse a b = - 1)"
proof -
  have "\<forall>a b. Date_parse parse (a ''date'') = None \<or> Date_parse parse (b ''date'') = None \<longrightarrow>
      compare_posts parse a b = - 1"
    by (auto simp: compare_posts_def js_less_def split: option.splits)
  then show ?thesis
    using getPosts_returns [OF assms, of parse] by (simp add: mset_Array_sort)
qed

theorem getPosts_completes_on_any_dates_witness:
  "\<exists>posts. getPosts example_matter example_parse fs_june_undated_january = Inr posts \<and>
     mset posts = mset [post_june, post_undated, post_january] \<and>
     Date_parse example_parse (post_undated ''date'') = None \<and>
     compare_posts example_parse post_undated post_june = - 1 \<and>
     compare_posts example_parse post_june post_undated = - 1"
proof -
  from getPosts_completes_on_any_dates
    [OF readdir_june_undated_january readFile_june_undated_january matter_june_undated_january,
      of example_parse]
  obtain posts where "getPosts example_matter example_parse fs_june_undated_january = Inr posts"
    and "mset posts = mset [post_june, post_undated, post_january]"
    and "\<forall>a b. Date_parse example_parse (a ''date'') = None \<or>
            Date_parse example_parse (b ''date'') = None \<longrightarrow>
            compare_posts example_parse a b = - 1"
    by (auto simp: post_dirs_def directory_def post_june_def post_undated_def post_january_def)
  with date_undated show ?thesis by blast
qed

text \<open>
  C2 as stated fails. The same three posts, listed in two orders: the post without a date
  comes out before the June post in one run and after it in the other, and in the first
  run the January post precedes the June post.
\<close>

theorem undated_post_position_counterexample:
  "getPosts example_matter example_parse fs_june_undated_january =
     Inr [post_january, post_undated, post_june] \<and>
   getPosts example_matter example_parse fs_january_undated_june =
     Inr [post_june, post_undated, post_january] \<and>
   Date_parse example_parse (post_undated ''date'') = None \<and>
   Date_parse example_parse (post_january ''date'') = Some 1704067200000 \<and>
   Date_parse example_parse (post_june ''date'') = Some 1717200000000"
  by (simp add: getPosts_june_undated_january getPosts_january_undated_june example_dates)

text \<open>
  C3 (as amended). \<^verbatim>\<open>getPosts\<close> does not look at the fields of the front matter. Whenever
  the listing, every read of an \<^verbatim>\<open>index.md\<close> and every parse succeed, it returns the
  collection, and a post whose front matter lacks \<^verbatim>\<open>title\<close>, \<^verbatim>\<open>date\<close> or \<^verbatim>\<open>spoiler\<close> is in
  it, as a record in which that field is absent.
\<close>

theorem getPosts_returns_posts_lacking_fields:
  assumes "readdir fs ''./public/'' = Inr entries"
    and "map (\<lambda>dir. readFile fs (index_md dir)) (post_dirs entries) = map Inr contents"
    and "map matter contents = map Inr datas"
    and "i < length (post_dirs entries)"
    and "k \<in> {''title'', ''date'', ''spoiler''}"
    and "(datas ! i) k = None"
  shows "\<exists>posts. getPosts matter parse fs = Inr posts \<and>
           make_post (post_dirs entries ! i) (datas ! i) \<in> set posts \<and>
           make_post (post_dirs entries ! i) (datas ! i) k = None"
proof -
  have len: "length datas = length (post_dirs entries)"
    using assms(2,3) by (rule parsed_lengths)
  with assms(4) have "(post_dirs entries ! i, datas ! i) \<in> set (zip (post_dirs entries) datas)"
    by (simp add: in_set_zip) blast
  then have "make_post (post_dirs entries ! i) (datas ! i) \<in>
      set (map (\<lambda>(slug, data). make_post slug data) (zip (post_dirs entries) datas))"
    by force
  moreover from assms(5) have "k \<noteq> ''slug''" by auto
  ultimately show ?thesis
    using getPosts_returns [OF assms(1-3), of parse] assms(6)
    by (simp add: set_Array_sort make_post_other)
qed

theorem getPosts_returns_posts_lacking_fields_witness:
  "\<exists>posts. getPosts example_matter example_parse fs_untitled = Inr posts \<and>
     post_untitled \<in> set posts \<and> post_untitled ''title'' = None"
  using getPosts_returns_posts_lacking_fields
    [OF readdir_untitled readFile_untitled matter_untitled, of 0 "''title''" example_parse]
  by (simp add: post_dirs_def directory_def fields_untitled_def post_untitled_def)

text \<open>
  C3 as stated fails: the file of the only directory parses, its front matter has no
  \<^verbatim>\<open>title\<close>, and \<^verbatim>\<open>getPosts\<close> returns the post without a title.
\<close>

theorem missing_title_counterexample:
  "example_matter (front_matter fields_untitled) = Inr (map_of fields_untitled) \<and>
   map_of fields_untitled ''title'' = None \<and>
   getPosts example_matter example_parse fs_untitled = Inr [post_untitled] \<and>
   post_untitled ''title'' = None"
proof -
  have "map_of fields_untitled ''title'' = None"
    by (simp add: fields_untitled_def)
  moreover from this have "post_untitled ''title'' = None"
    by (simp add: post_untitled_def make_post_other)
  ultimately show ?thesis
    using example_matter_untitled getPosts_untitled by blast
qed

text \<open>
  C4 (as amended). Whenever the listing, every read of an \<^verbatim>\<open>index.md\<close> and every parse
  succeed, \<^verbatim>\<open>getPosts\<close> returns as many records as the listing has directories, entries
  that are not directories left out: the records are, in some order, the ones built from
  each directory and its front matter. The slug of the record of a directory is the name
  of the directory, unless the front matter has a key \<^verbatim>\<open>slug\<close> of its own, whose value
  it then is.
\<close>

theorem getPosts_one_post_per_directory:
  assumes "readdir fs ''./public/'' = Inr entries"
    and "map (\<lambda>dir. readFile fs (index_md dir)) (post_dirs entries) = map Inr contents"
    and "map matter contents = map Inr datas"
  shows "\<exists>posts. getPosts matter parse fs = Inr posts \<and>
           length posts = length (filter isDirectory entries) \<and>
           mset posts =
             mset (map (\<lambda>(dir, data). make_post dir data)
                    (zip (map name (filter isDirectory entries)) datas)) \<and>
           mset (map (\<lambda>post. post ''slug'') posts) =
             mset (map (\<lambda>(dir, data). case data ''slug'' of None \<Rightarrow> Some dir | Some s \<Rightarrow> Some s)
                    (zip (map name (filter isDirectory entries)) datas))"
proof -
  let ?dirs = "map name (filter isDirectory entries)"
  let ?built = "map (\<lambda>(dir, data). make_post dir data) (zip ?dirs datas)"
  let ?posts = "Array_sort (compare_posts parse) ?built"
  have returned: "getPosts matter parse fs = Inr ?posts"
    using getPosts_returns [OF assms, of parse] by (simp add: post_dirs_def)
  have "length datas = length (post_dirs entries)"
    using assms(2,3) by (rule parsed_lengths)
  then have len: "length ?posts = length (filter isDirectory entries)"
    by (simp add: length_Array_sort post_dirs_def)
  have posts: "mset ?posts = mset ?built"
    by (rule mset_Array_sort)
  have "mset (map (\<lambda>post. post ''slug'') ?posts) = image_mset (\<lambda>post. post ''slug'') (mset ?built)"
    by (simp only: mset_map posts)
  also have "\<dots> = mset (map (\<lambda>post. post ''slug'') ?built)"
    by (simp only: mset_map)
  also have "map (\<lambda>post. post ''slug'') ?built =
      map (\<lambda>(dir, data). case data ''slug'' of None \<Rightarrow> Some dir | Some s \<Rightarrow> Some s) (zip ?dirs datas)"
    by (auto simp: make_post_slug split: option.splits)
  finally show ?thesis using returned len posts by blast
qed

theorem getPosts_one_post_per_directory_witness:
  "\<exists>posts. getPosts example_matter example_parse fs_two_posts = Inr posts \<and>
     length posts = 2 \<and> mset posts = mset [post_january, post_june] \<and>
     mset (map (\<lambda>post. post ''slug'') posts) = mset [Some ''january'', Some ''june'']"
  using getPosts_one_post_per_directory
    [OF readdir_two_posts readFile_two_posts matter_two_posts, of example_parse]
  by (simp add: directory_def plain_file_def post_january_def post_june_def
      fields_january_def fields_june_def numeral_2_eq_2)

text \<open>
  C4 as stated fails: a directory named \<^verbatim>\<open>original-name\<close> whose front matter has the three
  required fields and a \<^verbatim>\<open>slug\<close> of its own gives a record with that other slug.
\<close>

theorem slug_of_directory_counterexample:
  "readdir fs_renamed ''./public/'' = Inr [directory ''original-name''] \<and>
   getPosts example_matter example_parse fs_renamed = Inr [post_renamed] \<and>
   post_renamed ''title'' = Some ''Renamed'' \<and>
   post_renamed ''date'' = Some ''2024-06-01'' \<and>
   post_renamed ''spoiler'' = Some ''Own slug'' \<and>
   post_renamed ''slug'' = Some ''other-name''"
  by (simp add: readdir_renamed getPosts_renamed post_renamed_def make_post_other make_post_slug
      fields_renamed_def)

text \<open>
  C5. When \<^verbatim>\<open>getPosts\<close> returns a list of posts, \<^verbatim>\<open>generateFeed\<close> returns a feed whose
  items are the items made from those posts, one for each post and in the order of the
  list: nothing is sorted again, left out or added twice.
\<close>

theorem generateFeed_one_item_per_post:
  assumes "getPosts matter parse fs = Inr posts"
  shows "\<exists>f. generateFeed matter parse fs = Inr f \<and>
           length (items f) = length posts \<and>
           items f = map (feed_item parse) posts"
  using generateFeed_returns [OF assms] by simp

theorem generateFeed_one_item_per_post_witness:
  "\<exists>f. generateFeed example_matter example_parse fs_two_posts = Inr f \<and>
     length (items f) = 2 \<and>
     items f = [feed_item example_parse post_june, feed_item example_parse post_january]"
  using generateFeed_one_item_per_post [OF getPosts_two_posts] by (simp add: numeral_2_eq_2)

text \<open>
  C6. For every post of the list that \<^verbatim>\<open>getPosts\<close> returns, the item at the same place of
  the feed has for id and for link the site URL \<^verbatim>\<open>https://sulhadin.com/\<close>, then the slug of
  the post, then a slash; its title is the title of the post, its description is the
  spoiler of the post, and its date is the date object made from the date of the post.
\<close>

theorem generateFeed_item_fields:
  assumes "getPosts matter parse fs = Inr posts" and "i < length posts"
  shows "\<exists>f slug. generateFeed matter parse fs = Inr f \<and>
           (posts ! i) ''slug'' = Some slug \<and>
           id' (items f ! i) = ''https://sulhadin.com/'' @ slug @ ''/'' \<and>
           link (items f ! i) = ''https://sulhadin.com/'' @ slug @ ''/'' \<and>
           title (items f ! i) = (posts ! i) ''title'' \<and>
           description (items f ! i) = (posts ! i) ''spoiler'' \<and>
           date (items f ! i) = new_Date parse ((posts ! i) ''date'')"
proof -
  from assms obtain slug where slug: "(posts ! i) ''slug'' = Some slug"
    using getPosts_has_slug nth_mem by blast
  have "items \<lparr> options = the_feedOptions, items = map (feed_item parse) posts \<rparr> ! i =
      feed_item parse (posts ! i)"
    using assms(2) by simp
  with slug show ?thesis
    using generateFeed_returns [OF assms(1)]
    by (simp add: feed_item_def site_url_def ToString_def)
qed

theorem generateFeed_item_fields_witness:
  "\<exists>f. generateFeed example_matter example_parse fs_two_posts = Inr f \<and>
     id' (items f ! 0) = ''https://sulhadin.com/june/'' \<and>
     link (items f ! 0) = ''https://sulhadin.com/june/'' \<and>
     title (items f ! 0) = Some ''June'' \<and>
     description (items f ! 0) = Some ''Summer'' \<and>
     date (items f ! 0) = Some 1717200000000"
  using generateFeed_item_fields [OF getPosts_two_posts, of 0]
  by (auto simp: post_june_def make_post_slug make_post_other fields_june_def new_Date_def
      example_parse_def)

text \<open>
  C8. When the listing of \<^verbatim>\<open>./public/\<close> has a directory without a file \<^verbatim>\<open>index.md\<close>,
  \<^verbatim>\<open>getPosts\<close> fails as a whole, with the error of a missing \<^verbatim>\<open>index.md\<close>: it returns no
  collection, neither one without that directory nor any other.
\<close>

theorem getPosts_fails_without_index_md:
  assumes "readdir fs ''./public/'' = Inr entries"
    and "entry \<in> set entries" and "isDirectory entry"
    and "files fs (''./public/'' @ name entry @ ''/index.md'') = None"
  shows "\<exists>dir. getPosts matter parse fs = Inl (ENOENT (''./public/'' @ dir @ ''/index.md''))"
proof -
  let ?reads = "map (\<lambda>dir. readFile fs (''./public/'' @ dir @ ''/index.md''))
                  (map name (filter isDirectory entries))"
  from assms(2-4) have "Inl (ENOENT (''./public/'' @ name entry @ ''/index.md'')) \<in> set ?reads"
    by (force simp: readFile_def)
  then obtain e where e: "Promise_all ?reads = Inl e"
    using Promise_all_rejects by blast
  then have "Inl e \<in> set ?reads" by (rule Promise_all_Inl_mem)
  then obtain dir where "readFile fs (''./public/'' @ dir @ ''/index.md'') = Inl e"
    by auto
  then have "e = ENOENT (''./public/'' @ dir @ ''/index.md'')"
    by (auto simp: readFile_def split: option.splits)
  moreover have "getPosts matter parse fs = Inl e"
    using assms(1) e by (simp add: getPosts_def)
  ultimately show ?thesis by blast
qed

theorem getPosts_fails_without_index_md_witness:
  "getPosts example_matter example_parse fs_missing_index =
     Inl (ENOENT ''./public/truthy/index.md'') \<and>
   files fs_missing_index ''./public/january/index.md'' = Some (front_matter fields_january) \<and>
   (\<exists>dir. getPosts example_matter example_parse fs_missing_index =
      Inl (ENOENT (''./public/'' @ dir @ ''/index.md'')))"
proof -
  have present: "files fs_missing_index ''./public/january/index.md'' =
      Some (front_matter fields_january)"
    by (simp add: fs_missing_index_def example_files)
  have absent: "files fs_missing_index (''./public/'' @ name (directory ''truthy'') @ ''/index.md'') =
      None"
    by (simp add: fs_missing_index_def example_files)
  have "directory ''truthy'' \<in> set [directory ''january'', directory ''truthy'']"
    and "isDirectory (directory ''truthy'')"
    by (simp_all add: directory_def)
  from getPosts_fails_without_index_md [OF readdir_missing_index this absent]
  have "\<exists>dir. getPosts example_matter example_parse fs_missing_index =
      Inl (ENOENT (''./public/'' @ dir @ ''/index.md''))" .
  with getPosts_missing_index present show ?thesis by blast
qed

text \<open>
  C9. The comparator of the sort answers 1 when the parsed date of its first argument is
  a number strictly below the parsed date of its second argument, and -1 in every other
  case; it never answers 0. For two posts with the same date string, or with a date that
  parses to NaN on either side, it answers -1 in both argument orders, so that it is not
  antisymmetric.
\<close>

theorem compare_posts_never_zero:
  "compare_posts parse a b \<noteq> 0 \<and>
   compare_posts parse a b =
     (if \<exists>x y. Date_parse parse (a ''date'') = Some x \<and> Date_parse parse (b ''date'') = Some y \<and>
               x < y
      then 1 else - 1) \<and>
   (a ''date'' = b ''date'' \<or>
    Date_parse parse (a ''date'') = None \<or> Date_parse parse (b ''date'') = None \<longrightarrow>
      compare_posts parse a b = - 1 \<and> compare_posts parse b a = - 1)"
  by (auto simp: compare_posts_def js_less_def split: option.splits)

theorem compare_posts_never_zero_witness:
  "post_january ''date'' = post_untitled ''date'' \<and>
   compare_posts example_parse post_january post_untitled = - 1 \<and>
   compare_posts example_parse post_untitled post_january = - 1 \<and>
   Date_parse example_parse (post_undated ''date'') = None \<and>
   compare_posts example_parse post_undated post_june = - 1 \<and>
   compare_posts example_parse post_june post_undated = - 1 \<and>
   compare_posts example_parse post_january post_june = 1"
proof -
  have same: "post_january ''date'' = post_untitled ''date''"
    by (simp add: post_january_def post_untitled_def make_post_other fields_january_def
        fields_untitled_def)
  from compare_posts_never_zero [of example_parse post_january post_untitled] same
  have "compare_posts example_parse post_january post_untitled = - 1 \<and>
      compare_posts example_parse post_untitled post_january = - 1"
    by blast
  moreover from compare_posts_never_zero [of example_parse post_undated post_june] date_undated
  have "compare_posts example_parse post_undated post_june = - 1 \<and>
      compare_posts example_parse post_june post_undated = - 1"
    by blast
  moreover from compare_posts_never_zero [of example_parse post_january post_june]
  have "compare_posts example_parse post_january post_june = 1"
    by (simp add: example_dates)
  ultimately show ?thesis using same date_undated by blast
qed

text \<open>
  C10. When the front matter of a post has a key \<^verbatim>\<open>slug\<close>, the record that \<^verbatim>\<open>getPosts\<close>
  returns for the post carries the value of that key as its slug and not the name of the
  directory, because the front matter is copied over the slug of the directory.
\<close>

theorem front_matter_slug_replaces_directory_name:
  assumes "readdir fs ''./public/'' = Inr entries"
    and "map (\<lambda>dir. readFile fs (index_md dir)) (post_dirs entries) = map Inr contents"
    and "map matter contents = map Inr datas"
    and "i < length (post_dirs entries)"
    and "(datas ! i) ''slug'' = Some s"
  shows "\<exists>posts. getPosts matter parse fs = Inr posts \<and>
           make_post (post_dirs entries ! i) (datas ! i) \<in> set posts \<and>
           make_post (post_dirs entries ! i) (datas ! i) ''slug'' = Some s"
proof -
  have "length datas = length (post_dirs entries)"
    using assms(2,3) by (rule parsed_lengths)
  with assms(4) have "(post_dirs entries ! i, datas ! i) \<in> set (zip (post_dirs entries) datas)"
    by (simp add: in_set_zip) blast
  then have "make_post (post_dirs entries ! i) (datas ! i) \<in>
      set (map (\<lambda>(slug, data). make_post slug data) (zip (post_dirs entries) datas))"
    by force
  then show ?thesis
    using getPosts_returns [OF assms(1-3), of parse] assms(5)
    by (simp add: set_Array_sort make_post_slug)
qed

theorem front_matter_slug_replaces_directory_name_witness:
  "\<exists>posts. getPosts example_matter example_parse fs_renamed = Inr posts \<and>
     make_post ''original-name'' (map_of fields_renamed) \<in> set posts \<and>
     make_post ''original-name'' (map_of fields_renamed) ''slug'' = Some ''other-name''"
proof -
  have "map_of fields_renamed ''slug'' = Some ''other-name''"
    by (simp add: fields_renamed_def)
  with front_matter_slug_replaces_directory_name
    [OF readdir_renamed readFile_renamed matter_renamed, of 0 "''other-name''" example_parse]
  show ?thesis by (simp add: post_dirs_def directory_def)
qed

end
